theory Spec2Isabelle
  imports Main
begin

section \<open>The IMU orientation printer (print\_data.cpp)\<close>

text \<open>
  The program is a single C++ file over the vendor library \<^verbatim>\<open>robotcontrol\<close> and the C
  library. This theory embeds its functions as HOL functions. Everything the program
  does to the outside world (a call of \<^verbatim>\<open>printf\<close>, \<^verbatim>\<open>getopt\<close>, \<^verbatim>\<open>getchar\<close>, or of a
  vendor function) is recorded as an event, in program order; the values the outside
  world hands back (the command line, the characters on standard input, the return code
  of the initialisation, the moments at which SIGINT arrives) are inputs of the model.
\<close>

subsection \<open>Vendor and library types\<close>

text \<open>The enum \<^verbatim>\<open>rc_mpu_orientation_t\<close>, with the eight enumerators the program names.\<close>

datatype rc_mpu_orientation_t =
    ORIENTATION_Z_UP
  | ORIENTATION_Z_DOWN
  | ORIENTATION_X_UP
  | ORIENTATION_X_DOWN
  | ORIENTATION_Y_UP
  | ORIENTATION_Y_DOWN
  | ORIENTATION_X_FORWARD
  | ORIENTATION_X_BACK

text \<open>
  The struct \<^verbatim>\<open>rc_mpu_config_t\<close>. The six fields below are the ones the program writes;
  every further field of the vendor struct lives in the extension part of the record
  (\<open>rc_mpu_config_t.more\<close>), which no record update of the six fields touches.
\<close>

record rc_mpu_config_t =
  gpio_interrupt_pin_chip :: int
  gpio_interrupt_pin :: int
  i2c_bus :: int
  enable_magnetometer :: int
  dmp_sample_rate :: int
  orient :: rc_mpu_orientation_t

text \<open>
  The struct \<^verbatim>\<open>rc_mpu_data_t\<close>: the program reads only the array \<^verbatim>\<open>dmp_TaitBryan\<close>, at
  the three indices named by the vendor macros \<^verbatim>\<open>TB_PITCH_X\<close>, \<^verbatim>\<open>TB_ROLL_Y\<close> and
  \<^verbatim>\<open>TB_YAW_Z\<close>. The array is a function from these index names; \<open>'d\<close> stands for the
  C type \<^verbatim>\<open>double\<close>, whose arithmetic is left to the parameters below.
\<close>

datatype tb_index = TB_PITCH_X | TB_ROLL_Y | TB_YAW_Z

record 'd rc_mpu_data_t =
  dmp_TaitBryan :: "tb_index \<Rightarrow> 'd"

text \<open>
  Floating point is not interpreted: \<open>fmul\<close> is the multiplication of two doubles and
  \<open>RAD_TO_DEG\<close> the vendor macro of that name.
\<close>

record 'd double_ops =
  fmul :: "'d \<Rightarrow> 'd \<Rightarrow> 'd"
  RAD_TO_DEG :: 'd

subsection \<open>Events and outcomes\<close>

datatype 'd printf_arg = Arg_int int | Arg_double 'd

datatype outcome =
    Returned int        \<comment> \<open>\<^verbatim>\<open>main\<close> returned this value\<close>
  | Exited int          \<comment> \<open>\<^verbatim>\<open>exit\<close> was called with this status\<close>
  | Segfault            \<comment> \<open>\<^verbatim>\<open>atoi\<close> on a null \<^verbatim>\<open>optarg\<close>\<close>
  | Killed_by_SIGINT    \<comment> \<open>SIGINT under its default disposition\<close>

text \<open>
  The calls \<^verbatim>\<open>main\<close> makes, each with what the outside world answers: the result of
  \<^verbatim>\<open>getopt\<close> and of \<^verbatim>\<open>getchar\<close> (\<open>None\<close> for \<^verbatim>\<open>-1\<close> and for \<^verbatim>\<open>EOF\<close>), the return code of
  \<^verbatim>\<open>rc_mpu_initialize_dmp\<close>. The only arguments \<^verbatim>\<open>main\<close> ever gives to \<^verbatim>\<open>printf\<close> are
  ints. The configuration given to \<^verbatim>\<open>rc_mpu_initialize_dmp\<close> is kept in the state of the
  process (\<open>initialize_arg\<close> below). The first statement of \<^verbatim>\<open>main\<close>, the call of
  \<^verbatim>\<open>rc_mpu_default_config()\<close>, is made in every run and is no event: what it returns is
  an input of \<^verbatim>\<open>main\<close> (\<open>default_config\<close> below), and the events are the calls after it.
\<close>

datatype event =
    Printf string "int list"
  | Fflush_stdout
  | Getopt "(char \<times> string option) option"
  | Getchar "char option"
  | Signal_SIGINT
  | Rc_mpu_initialize_dmp int
  | Rc_mpu_set_dmp_callback
  | Rc_usleep int
  | Rc_mpu_power_off

text \<open>The calls of the callback: \<^verbatim>\<open>printf\<close> with doubles, and \<^verbatim>\<open>fflush\<close>.\<close>

datatype 'd callback_event =
    Printf_doubles string "'d list"
  | Fflush_stdout_callback

abbreviation NL :: char where "NL \<equiv> CHR 0x0A"
abbreviation CR :: char where "CR \<equiv> CHR 0x0D"

subsection \<open>The C library's \<^verbatim>\<open>printf\<close>, as far as the program uses it\<close>

text \<open>
  A format string is read character by character. After a \<^verbatim>\<open>%\<close> come an optional
  field width, an optional precision after a dot, and the conversion character:
  \<^verbatim>\<open>f\<close> takes a double, \<^verbatim>\<open>c\<close> an int that is written as one character, \<^verbatim>\<open>%\<close> writes
  a per-cent sign. How a double is written in a field of width \<open>w\<close> with \<open>p\<close> decimals
  is the parameter \<open>fmt_f w p\<close>. A directive the program never uses, or one without a
  matching argument, ends the output (in C the behaviour is undefined).
\<close>

datatype fmt_mode = Literal | Width nat | Precision nat nat

definition isdigit :: "char \<Rightarrow> bool" where
  "isdigit c = (c \<in> set ''0123456789'')"

definition digit_val :: "char \<Rightarrow> nat" where
  "digit_val c = of_char c - 48"

definition pad :: "nat \<Rightarrow> string \<Rightarrow> string" where
  "pad w s = replicate (w - length s) CHR '' '' @ s"

fun vprintf :: "(nat \<Rightarrow> nat \<Rightarrow> 'd \<Rightarrow> string) \<Rightarrow> fmt_mode \<Rightarrow> string \<Rightarrow> 'd printf_arg list \<Rightarrow> string"
  and conversion :: "(nat \<Rightarrow> nat \<Rightarrow> 'd \<Rightarrow> string) \<Rightarrow> nat \<Rightarrow> nat \<Rightarrow> char \<Rightarrow> string \<Rightarrow> 'd printf_arg list \<Rightarrow> string"
  where
  "vprintf fmt_f m [] args = []"
| "vprintf fmt_f Literal (c # cs) args =
     (if c = CHR ''%'' then vprintf fmt_f (Width 0) cs args
      else c # vprintf fmt_f Literal cs args)"
| "vprintf fmt_f (Width w) (c # cs) args =
     (if isdigit c then vprintf fmt_f (Width (10 * w + digit_val c)) cs args
      else if c = CHR ''.'' then vprintf fmt_f (Precision w 0) cs args
      else conversion fmt_f w 6 c cs args)"
| "vprintf fmt_f (Precision w p) (c # cs) args =
     (if isdigit c then vprintf fmt_f (Precision w (10 * p + digit_val c)) cs args
      else conversion fmt_f w p c cs args)"
| "conversion fmt_f w p c cs args =
     (if c = CHR ''%'' then CHR ''%'' # vprintf fmt_f Literal cs args
      else if c = CHR ''f'' then
        (case args of
           Arg_double x # rest \<Rightarrow> fmt_f w p x @ vprintf fmt_f Literal cs rest
         | _ \<Rightarrow> [])
      else if c = CHR ''c'' then
        (case args of
           Arg_int n # rest \<Rightarrow> pad w [char_of n] @ vprintf fmt_f Literal cs rest
         | _ \<Rightarrow> [])
      else [])"

text \<open>What a list of events writes to standard output.\<close>

definition no_doubles :: "nat \<Rightarrow> nat \<Rightarrow> unit \<Rightarrow> string" where
  "no_doubles w p x = []"

fun stdout_of :: "event list \<Rightarrow> string" where
  "stdout_of [] = []"
| "stdout_of (Printf fmt args # es) =
     vprintf no_doubles Literal fmt (map Arg_int args) @ stdout_of es"
| "stdout_of (e # es) = stdout_of es"

fun callback_stdout_of :: "(nat \<Rightarrow> nat \<Rightarrow> 'd \<Rightarrow> string) \<Rightarrow> 'd callback_event list \<Rightarrow> string" where
  "callback_stdout_of fmt_f [] = []"
| "callback_stdout_of fmt_f (Printf_doubles fmt args # es) =
     vprintf fmt_f Literal fmt (map Arg_double args) @ callback_stdout_of fmt_f es"
| "callback_stdout_of fmt_f (Fflush_stdout_callback # es) = callback_stdout_of fmt_f es"

subsection \<open>The print functions\<close>

definition print_usage :: "event list" where
  "print_usage =
     [Printf ''\<newline> Options\<newline>'' [],
      Printf ''-r {rate}       Set sample rate in HZ (default 100)\<newline>'' [],
      Printf ''                Sample rate must be a divisor of 200\<newline>'' [],
      Printf ''-m              Enable Magnetometer\<newline>'' [],
      Printf ''-o              Show a menu to select IMU orientation\<newline>'' [],
      Printf ''-h              Print this help message\<newline>\<newline>'' []]"

text \<open>The IMU interrupt function; \<open>data\<close> is the global struct the library fills.\<close>

definition print_data :: "'d double_ops \<Rightarrow> 'd rc_mpu_data_t \<Rightarrow> 'd callback_event list" where
  "print_data ops data =
     [Printf_doubles [CR] [],
      Printf_doubles '' '' [],
      Printf_doubles ''%6.1f %6.1f %6.1f |''
        [fmul ops (dmp_TaitBryan data TB_PITCH_X) (RAD_TO_DEG ops),
         fmul ops (dmp_TaitBryan data TB_ROLL_Y) (RAD_TO_DEG ops),
         fmul ops (dmp_TaitBryan data TB_YAW_Z) (RAD_TO_DEG ops)],
      Fflush_stdout_callback]"

definition print_header :: "event list" where
  "print_header =
     [Printf '' '' [],
      Printf '' DMP TaitBryan (deg) |'' [],
      Printf ''\<newline>'' []]"

subsection \<open>The orientation prompt\<close>

text \<open>
  \<open>stdin\<close> is the sequence of characters \<^verbatim>\<open>getchar\<close> will deliver; at its end \<^verbatim>\<open>getchar\<close>
  returns \<^verbatim>\<open>EOF\<close>. The loop returns the events of its reads and prints and either the
  chosen orientation or, for \<^verbatim>\<open>exit(0)\<close>, the outcome of the process.
\<close>

fun prompt_loop :: "string \<Rightarrow> event list \<times> (outcome + rc_mpu_orientation_t)" where
  "prompt_loop [] = ([Getchar None], Inr ORIENTATION_Z_UP)"
| "prompt_loop (c # cs) =
     (if c = CHR ''1'' then ([Getchar (Some c)], Inr ORIENTATION_Z_UP)
      else if c = CHR ''2'' then ([Getchar (Some c)], Inr ORIENTATION_Z_DOWN)
      else if c = CHR ''3'' then ([Getchar (Some c)], Inr ORIENTATION_X_UP)
      else if c = CHR ''4'' then ([Getchar (Some c)], Inr ORIENTATION_X_DOWN)
      else if c = CHR ''5'' then ([Getchar (Some c)], Inr ORIENTATION_Y_UP)
      else if c = CHR ''6'' then ([Getchar (Some c)], Inr ORIENTATION_Y_DOWN)
      else if c = CHR ''7'' then ([Getchar (Some c)], Inr ORIENTATION_X_FORWARD)
      else if c = CHR ''8'' then ([Getchar (Some c)], Inr ORIENTATION_X_BACK)
      else if c = CHR ''q'' then
        ([Getchar (Some c), Printf ''Quitting\<newline>'' []], Inl (Exited 0))
      else if c = CHR ''\<newline>'' then
        (case prompt_loop cs of (tr, r) \<Rightarrow> (Getchar (Some c) # tr, r))
      else
        (case prompt_loop cs of
           (tr, r) \<Rightarrow> (Getchar (Some c) # Printf ''invalid input\<newline>'' [] # tr, r)))"

definition prompt_menu :: "event list" where
  "prompt_menu =
     [Printf ''\<newline>'' [],
      Printf ''Please select a number 1-6 corresponding to the\<newline>'' [],
      Printf ''orientation you wish to use. Press 'q' to exit.\<newline>\<newline>'' [],
      Printf '' 1: ORIENTATION_Z_UP\<newline>'' [],
      Printf '' 2: ORIENTATION_Z_DOWN\<newline>'' [],
      Printf '' 3: ORIENTATION_X_UP\<newline>'' [],
      Printf '' 4: ORIENTATION_X_DOWN\<newline>'' [],
      Printf '' 5: ORIENTATION_Y_UP\<newline>'' [],
      Printf '' 6: ORIENTATION_Y_DOWN\<newline>'' [],
      Printf '' 7: ORIENTATION_X_FORWARD\<newline>'' [],
      Printf '' 8: ORIENTATION_X_BACK\<newline>'' []]"

definition orientation_prompt :: "string \<Rightarrow> event list \<times> (outcome + rc_mpu_orientation_t)" where
  "orientation_prompt stdin = (case prompt_loop stdin of (tr, r) \<Rightarrow> (prompt_menu @ tr, r))"

subsection \<open>The C library's \<^verbatim>\<open>atoi\<close>\<close>

text \<open>
  \<^verbatim>\<open>atoi\<close> skips white space, reads an optional sign and then decimal digits up to the
  first character that is not a digit; without digits the value is 0. On the 32-bit
  board the program names, a value out of the range of \<^verbatim>\<open>long\<close> is clamped by
  \<^verbatim>\<open>strtol\<close> to the nearest bound.
\<close>

definition isspace :: "char \<Rightarrow> bool" where
  "isspace c = (c \<in> set [CHR '' '', CHR 0x09, NL, CHR 0x0B, CHR 0x0C, CR])"

fun digits_value :: "int \<Rightarrow> string \<Rightarrow> int" where
  "digits_value acc [] = acc"
| "digits_value acc (c # cs) =
     (if isdigit c then digits_value (10 * acc + int (digit_val c)) cs else acc)"

definition atoi :: "string \<Rightarrow> int" where
  "atoi s =
     (let s1 = dropWhile isspace s;
          v = (case s1 of
                 [] \<Rightarrow> 0
               | c # cs \<Rightarrow>
                   if c = CHR ''-'' then - digits_value 0 cs
                   else if c = CHR ''+'' then digits_value 0 cs
                   else digits_value 0 s1)
      in max (- 2147483648) (min 2147483647 v))"

subsection \<open>The C library's \<^verbatim>\<open>getopt\<close>\<close>

text \<open>
  The state of \<^verbatim>\<open>getopt\<close> between two calls: \<open>nextchar\<close> is what is left of the
  cluster of option characters being read (empty between two elements of \<^verbatim>\<open>argv\<close>),
  \<open>args_left\<close> the elements of \<^verbatim>\<open>argv\<close> after it. A call returns \<open>None\<close> for \<^verbatim>\<open>-1\<close>,
  and otherwise the option character together with \<^verbatim>\<open>optarg\<close> (\<open>None\<close> for a null
  pointer). \<^verbatim>\<open>opterr\<close> is 0, so \<^verbatim>\<open>getopt\<close> prints nothing itself; the option string
  does not begin with a colon, so a missing argument is reported as \<^verbatim>\<open>?\<close>.

  With the GNU library an element that is not an option is skipped and the scan goes
  on behind it, unless the environment variable \<^verbatim>\<open>POSIXLY_CORRECT\<close> is set; then, as
  in POSIX, the scan ends at the first such element. The flag \<open>posixly_correct\<close> says
  which. The state after \<^verbatim>\<open>getopt\<close> has returned \<^verbatim>\<open>-1\<close> is not read by the program.
\<close>

record getopt_data =
  nextchar :: string
  args_left :: "string list"

definition NONOPTION_P :: "string \<Rightarrow> bool" where
  "NONOPTION_P a = (case a of [] \<Rightarrow> True | c # cs \<Rightarrow> c \<noteq> CHR ''-'' \<or> cs = [])"

definition strchr :: "string \<Rightarrow> char \<Rightarrow> string option" where
  "strchr s c = (case dropWhile (\<lambda>x. x \<noteq> c) s of [] \<Rightarrow> None | x # t \<Rightarrow> Some t)"

definition short_option ::
  "string \<Rightarrow> char \<Rightarrow> string \<Rightarrow> string list \<Rightarrow> (char \<times> string option) \<times> getopt_data" where
  "short_option optstring c nc args =
     (case strchr optstring c of
        None \<Rightarrow> ((CHR ''?'', None), \<lparr>nextchar = nc, args_left = args\<rparr>)
      | Some temp \<Rightarrow>
          if c = CHR '':'' \<or> c = CHR '';'' then
            ((CHR ''?'', None), \<lparr>nextchar = nc, args_left = args\<rparr>)
          else if take 1 temp = '':'' then
            (if take 2 temp = ''::'' then
               ((c, if nc = [] then None else Some nc), \<lparr>nextchar = [], args_left = args\<rparr>)
             else if nc \<noteq> [] then
               ((c, Some nc), \<lparr>nextchar = [], args_left = args\<rparr>)
             else
               (case args of
                  [] \<Rightarrow> ((CHR ''?'', None), \<lparr>nextchar = [], args_left = []\<rparr>)
                | a # args' \<Rightarrow> ((c, Some a), \<lparr>nextchar = [], args_left = args'\<rparr>)))
          else ((c, None), \<lparr>nextchar = nc, args_left = args\<rparr>))"

definition getopt ::
  "bool \<Rightarrow> string \<Rightarrow> getopt_data \<Rightarrow> (char \<times> string option) option \<times> getopt_data" where
  "getopt posixly_correct optstring d =
     (case nextchar d of
        c # nc \<Rightarrow>
          (case short_option optstring c nc (args_left d) of (r, d') \<Rightarrow> (Some r, d'))
      | [] \<Rightarrow>
          (let args = (if posixly_correct then args_left d
                       else dropWhile NONOPTION_P (args_left d))
           in case args of
                [] \<Rightarrow> (None, \<lparr>nextchar = [], args_left = []\<rparr>)
              | a # args' \<Rightarrow>
                  if a = ''--'' then (None, \<lparr>nextchar = [], args_left = args'\<rparr>)
                  else if NONOPTION_P a then (None, \<lparr>nextchar = [], args_left = args\<rparr>)
                  else
                    (case a of
                       dash # c # nc \<Rightarrow>
                         (case short_option optstring c nc args' of (r, d') \<Rightarrow> (Some r, d'))
                     | _ \<Rightarrow> (None, \<lparr>nextchar = [], args_left = args\<rparr>))))"

definition getopt_size :: "getopt_data \<Rightarrow> nat" where
  "getopt_size d = length (nextchar d) + (\<Sum>a\<leftarrow>args_left d. Suc (length a))"

subsection \<open>\<^verbatim>\<open>main\<close>: the option loop\<close>

definition I2C_BUS :: int where "I2C_BUS = 2"
definition GPIO_INT_PIN_CHIP :: int where "GPIO_INT_PIN_CHIP = 3"
definition GPIO_INT_PIN_PIN :: int where "GPIO_INT_PIN_PIN = 21"

text \<open>
  The variables the loop writes: the local \<^verbatim>\<open>conf\<close> and \<^verbatim>\<open>show_something\<close>, and the
  globals \<^verbatim>\<open>enable_mag\<close> and \<^verbatim>\<open>orientation_menu\<close>.
\<close>

record 'a main_vars =
  conf :: "'a rc_mpu_config_t_scheme"
  show_something :: int
  enable_mag :: int
  orientation_menu :: int

text \<open>
  One evaluation of the loop condition followed, when it holds, by the loop body:
  the loop goes on with new variables, ends, or \<^verbatim>\<open>main\<close> returns from inside it.
\<close>

datatype 'a iteration =
    Continue "'a main_vars" getopt_data
  | Loop_done "'a main_vars"
  | Return_in_loop outcome

definition loop_iteration ::
  "bool \<Rightarrow> nat \<Rightarrow> 'a main_vars \<Rightarrow> getopt_data \<Rightarrow> event list \<times> 'a iteration" where
  "loop_iteration posixly_correct argc v d =
     (case getopt posixly_correct ''r:m:ho'' d of
        (r, d') \<Rightarrow>
          (case r of
             None \<Rightarrow> ([Getopt r], Loop_done v)
           | Some (c, optarg) \<Rightarrow>
               if \<not> argc > 1 then ([Getopt r], Loop_done v)
               else if c = CHR ''r'' then
                 (case optarg of
                    None \<Rightarrow> ([Getopt r], Return_in_loop Segfault)
                  | Some a \<Rightarrow>
                      let sample_rate = atoi a;
                          v1 = v\<lparr>show_something := 1\<rparr>
                      in if sample_rate > 200 \<or> sample_rate < 4 then
                           ([Getopt r, Printf ''sample_rate must be between 4 & 200'' []],
                            Return_in_loop (Returned (- 1)))
                         else
                           ([Getopt r],
                            Continue (v1\<lparr>conf := (conf v1)\<lparr>dmp_sample_rate := sample_rate\<rparr>\<rparr>) d'))
               else if c = CHR ''m'' then
                 ([Getopt r],
                  Continue (v\<lparr>enable_mag := 1,
                              conf := (conf v)\<lparr>enable_magnetometer := 1\<rparr>\<rparr>) d')
               else if c = CHR ''o'' then
                 ([Getopt r], Continue (v\<lparr>orientation_menu := 1\<rparr>) d')
               else if c = CHR ''h'' then
                 (Getopt r # print_usage, Return_in_loop (Returned (- 1)))
               else
                 (Getopt r #
                  Printf ''opt: %c\<newline>'' [of_char c] #
                  Printf ''invalid argument\<newline>'' [] #
                  print_usage,
                  Return_in_loop (Returned (- 1)))))"

text \<open>
  The loop itself. Every call of \<^verbatim>\<open>getopt\<close> that returns an option uses up a character
  of the command line, which is why the loop ends.
\<close>

lemma short_option_size:
  "short_option optstring c nc args = (r, d') \<Longrightarrow>
   getopt_size d' \<le> length nc + (\<Sum>a\<leftarrow>args. Suc (length a))"
  by (auto simp: short_option_def getopt_size_def split: option.splits if_splits list.splits)

lemma sum_dropWhile_le:
  "(\<Sum>a\<leftarrow>dropWhile P xs. Suc (length a)) \<le> (\<Sum>a\<leftarrow>xs. Suc (length a))"
  by (induction xs) auto

lemma getopt_size_decreases:
  assumes g: "getopt posix optstring d = (Some r, d')"
  shows "getopt_size d' < getopt_size d"
proof (cases "nextchar d")
  case (Cons c nc)
  with g obtain r0 where "short_option optstring c nc (args_left d) = (r0, d')"
    by (auto simp: getopt_def split: prod.splits)
  from short_option_size[OF this] Cons show ?thesis by (simp add: getopt_size_def)
next
  case Nil
  define args where "args = (if posix then args_left d else dropWhile NONOPTION_P (args_left d))"
  have le: "(\<Sum>a\<leftarrow>args. Suc (length a)) \<le> (\<Sum>a\<leftarrow>args_left d. Suc (length a))"
    by (simp add: args_def sum_dropWhile_le)
  from g Nil obtain dash c nc args' r0 where
    a: "args = (dash # c # nc) # args'" and s: "short_option optstring c nc args' = (r0, d')"
    by (auto simp: getopt_def args_def[symmetric] Let_def split: list.splits if_splits prod.splits)
  from short_option_size[OF s] a le Nil show ?thesis by (simp add: getopt_size_def)
qed

lemma loop_iteration_size:
  "loop_iteration posix argc v d = (tr, Continue v' d') \<Longrightarrow> getopt_size d' < getopt_size d"
  by (auto simp: loop_iteration_def Let_def split: prod.splits option.splits if_splits
      dest: getopt_size_decreases)

function parse_options ::
  "bool \<Rightarrow> nat \<Rightarrow> 'a main_vars \<Rightarrow> getopt_data \<Rightarrow> event list \<times> (outcome + 'a main_vars)" where
  "parse_options posixly_correct argc v d =
     (case loop_iteration posixly_correct argc v d of
        (tr, Continue v' d') \<Rightarrow>
          (case parse_options posixly_correct argc v' d' of (tr', r) \<Rightarrow> (tr @ tr', r))
      | (tr, Loop_done v') \<Rightarrow> (tr, Inr v')
      | (tr, Return_in_loop out) \<Rightarrow> (tr, Inl out))"
  by pat_completeness auto
termination
  by (relation "measure (\<lambda>(p, n, v, d). getopt_size d)") (auto dest: loop_iteration_size [OF sym])

declare parse_options.simps [simp del]

subsection \<open>\<^verbatim>\<open>main\<close> up to the call of \<^verbatim>\<open>signal\<close>\<close>

text \<open>
  \<open>default_config\<close> is what the vendor's \<^verbatim>\<open>rc_mpu_default_config()\<close> returns. The result
  is the events so far and either the outcome of the process, when it ends here, or
  the variables with which \<^verbatim>\<open>main\<close> goes on.
\<close>

definition initial_vars :: "'a rc_mpu_config_t_scheme \<Rightarrow> 'a main_vars" where
  "initial_vars default_config =
     \<lparr>conf = default_config\<lparr>i2c_bus := I2C_BUS,
                             gpio_interrupt_pin_chip := GPIO_INT_PIN_CHIP,
                             gpio_interrupt_pin := GPIO_INT_PIN_PIN\<rparr>,
      show_something = 0, enable_mag = 0, orientation_menu = 0\<rparr>"

definition initial_getopt :: "string list \<Rightarrow> getopt_data" where
  "initial_getopt argv = \<lparr>nextchar = [], args_left = tl argv\<rparr>"

definition main_head ::
  "bool \<Rightarrow> 'a rc_mpu_config_t_scheme \<Rightarrow> string list \<Rightarrow> string \<Rightarrow>
   event list \<times> (outcome + 'a main_vars)" where
  "main_head posixly_correct default_config argv stdin =
     (case parse_options posixly_correct (length argv) (initial_vars default_config)
             (initial_getopt argv) of
        (tr, Inl out) \<Rightarrow> (tr, Inl out)
      | (tr, Inr v) \<Rightarrow>
          if show_something v = 0 then
            (tr @ print_usage @
               [Printf ''please enable an option to print some data\<newline>'' []],
             Inl (Returned (- 1)))
          else if orientation_menu v \<noteq> 0 then
            (case orientation_prompt stdin of
               (tr2, Inl out) \<Rightarrow> (tr @ tr2, Inl out)
             | (tr2, Inr x) \<Rightarrow> (tr @ tr2, Inr (v\<lparr>conf := (conf v)\<lparr>orient := x\<rparr>\<rparr>)))
          else (tr, Inr v))"

subsection \<open>\<^verbatim>\<open>main\<close> from the call of \<^verbatim>\<open>signal\<close> on, and the signal handler\<close>

text \<open>
  From here on SIGINT runs the handler, at any moment. The rest of \<^verbatim>\<open>main\<close> is
  therefore a machine that executes one statement per step; a run is driven by a
  schedule, the list of what happens next: \<^verbatim>\<open>main\<close> executes its next statement, or a
  SIGINT is delivered. A schedule is finite, so a run is a finite prefix of an
  execution; the idle loop does not end unless \<open>running\<close> is 0. A SIGINT that arrives
  earlier, while the options are parsed or the prompt waits, ends the process by the
  default action; it is not part of a schedule. Neither are the calls of the callback
  by the library: \<^verbatim>\<open>__print_data\<close> writes to standard output and to no variable of
  \<^verbatim>\<open>main\<close>.
\<close>

datatype pc =
    At_signal             \<comment> \<open>\<^verbatim>\<open>signal(SIGINT, __signal_handler)\<close>\<close>
  | At_set_running        \<comment> \<open>\<^verbatim>\<open>running = 1\<close>\<close>
  | At_initialize         \<comment> \<open>\<^verbatim>\<open>if(rc_mpu_initialize_dmp(&data, conf))\<close>\<close>
  | At_failed_message     \<comment> \<open>\<^verbatim>\<open>printf("rc_mpu_initialize_failed\n")\<close>\<close>
  | At_failed_return      \<comment> \<open>\<^verbatim>\<open>return -1\<close>\<close>
  | At_header             \<comment> \<open>\<^verbatim>\<open>__print_header()\<close>\<close>
  | At_set_callback       \<comment> \<open>\<^verbatim>\<open>rc_mpu_set_dmp_callback(&__print_data)\<close>\<close>
  | At_loop_test          \<comment> \<open>\<^verbatim>\<open>while(running)\<close>\<close>
  | At_usleep             \<comment> \<open>\<^verbatim>\<open>rc_usleep(100000)\<close>\<close>
  | At_power_off          \<comment> \<open>\<^verbatim>\<open>rc_mpu_power_off()\<close>\<close>
  | At_newline            \<comment> \<open>\<^verbatim>\<open>printf("\n")\<close>\<close>
  | At_fflush             \<comment> \<open>\<^verbatim>\<open>fflush(stdout)\<close>\<close>
  | At_return_0           \<comment> \<open>\<^verbatim>\<open>return 0\<close>\<close>
  | Halted outcome

text \<open>
  The state of the process: where \<^verbatim>\<open>main\<close> stands, the static variable \<^verbatim>\<open>running\<close>,
  whether the handler is installed, the configuration \<^verbatim>\<open>rc_mpu_initialize_dmp\<close> has been
  called with (\<open>None\<close> before the call), and the events so far.
\<close>

record 'a process =
  pc :: pc
  running :: int
  handler_installed :: bool
  initialize_arg :: "'a rc_mpu_config_t_scheme option"
  trace :: "event list"

definition signal_handler :: "'a process \<Rightarrow> 'a process" where
  "signal_handler s = s\<lparr>running := 0\<rparr>"

definition main_step ::
  "'a rc_mpu_config_t_scheme \<Rightarrow> int \<Rightarrow> 'a process \<Rightarrow> 'a process" where
  "main_step c init_rc s =
     (case pc s of
        At_signal \<Rightarrow>
          s\<lparr>pc := At_set_running, handler_installed := True,
            trace := trace s @ [Signal_SIGINT]\<rparr>
      | At_set_running \<Rightarrow> s\<lparr>pc := At_initialize, running := 1\<rparr>
      | At_initialize \<Rightarrow>
          s\<lparr>pc := (if init_rc \<noteq> 0 then At_failed_message else At_header),
            initialize_arg := Some c,
            trace := trace s @ [Rc_mpu_initialize_dmp init_rc]\<rparr>
      | At_failed_message \<Rightarrow>
          s\<lparr>pc := At_failed_return,
            trace := trace s @ [Printf ''rc_mpu_initialize_failed\<newline>'' []]\<rparr>
      | At_failed_return \<Rightarrow> s\<lparr>pc := Halted (Returned (- 1))\<rparr>
      | At_header \<Rightarrow> s\<lparr>pc := At_set_callback, trace := trace s @ print_header\<rparr>
      | At_set_callback \<Rightarrow>
          s\<lparr>pc := At_loop_test, trace := trace s @ [Rc_mpu_set_dmp_callback]\<rparr>
      | At_loop_test \<Rightarrow> s\<lparr>pc := (if running s \<noteq> 0 then At_usleep else At_power_off)\<rparr>
      | At_usleep \<Rightarrow> s\<lparr>pc := At_loop_test, trace := trace s @ [Rc_usleep 100000]\<rparr>
      | At_power_off \<Rightarrow> s\<lparr>pc := At_newline, trace := trace s @ [Rc_mpu_power_off]\<rparr>
      | At_newline \<Rightarrow> s\<lparr>pc := At_fflush, trace := trace s @ [Printf ''\<newline>'' []]\<rparr>
      | At_fflush \<Rightarrow> s\<lparr>pc := At_return_0, trace := trace s @ [Fflush_stdout]\<rparr>
      | At_return_0 \<Rightarrow> s\<lparr>pc := Halted (Returned 0)\<rparr>
      | Halted out \<Rightarrow> s)"

text \<open>
  A SIGINT runs the handler once \<^verbatim>\<open>signal\<close> has installed it; before that it ends the
  process. A process that has ended receives nothing.
\<close>

definition deliver_sigint :: "'a process \<Rightarrow> 'a process" where
  "deliver_sigint s =
     (case pc s of
        Halted out \<Rightarrow> s
      | _ \<Rightarrow> if handler_installed s then signal_handler s
             else s\<lparr>pc := Halted Killed_by_SIGINT\<rparr>)"

datatype action = Main_step | SIGINT

definition perform ::
  "'a rc_mpu_config_t_scheme \<Rightarrow> int \<Rightarrow> action \<Rightarrow> 'a process \<Rightarrow> 'a process" where
  "perform c init_rc a s = (case a of Main_step \<Rightarrow> main_step c init_rc s | SIGINT \<Rightarrow> deliver_sigint s)"

fun run ::
  "'a rc_mpu_config_t_scheme \<Rightarrow> int \<Rightarrow> action list \<Rightarrow> 'a process \<Rightarrow> 'a process" where
  "run c init_rc [] s = s"
| "run c init_rc (a # schedule) s = run c init_rc schedule (perform c init_rc a s)"

subsection \<open>The whole of \<^verbatim>\<open>main\<close>\<close>

text \<open>
  The inputs: whether \<^verbatim>\<open>POSIXLY_CORRECT\<close> is set, the vendor's default configuration,
  the return code \<^verbatim>\<open>rc_mpu_initialize_dmp\<close> is going to give, the command line
  (\<^verbatim>\<open>argc\<close> is its length), the characters on standard input, and the schedule. The
  static variable \<^verbatim>\<open>running\<close> starts as 0.
\<close>

definition main ::
  "bool \<Rightarrow> 'a rc_mpu_config_t_scheme \<Rightarrow> int \<Rightarrow> string list \<Rightarrow> string \<Rightarrow> action list \<Rightarrow>
   'a process" where
  "main posixly_correct default_config init_rc argv stdin schedule =
     (case main_head posixly_correct default_config argv stdin of
        (tr, Inl out) \<Rightarrow>
          \<lparr>pc = Halted out, running = 0, handler_installed = False, initialize_arg = None,
            trace = tr\<rparr>
      | (tr, Inr v) \<Rightarrow>
          run (conf v) init_rc schedule
            \<lparr>pc = At_signal, running = 0, handler_installed = False, initialize_arg = None,
              trace = tr\<rparr>)"

section \<open>The notions of the properties\<close>

text \<open>
  The definitions of this section are not translations of the source: they name the
  notions in which the properties below are stated, so that each property compares
  what \<^verbatim>\<open>main\<close> does with a description that does not run \<^verbatim>\<open>main\<close>.
\<close>

fun is_printf :: "event \<Rightarrow> bool" where
  "is_printf (Printf fmt args) = True"
| "is_printf e = False"

fun printed_doubles :: "'d callback_event \<Rightarrow> 'd list" where
  "printed_doubles (Printf_doubles fmt args) = args"
| "printed_doubles Fflush_stdout_callback = []"


subsection \<open>The options of a command line\<close>

text \<open>
  All the options \<^verbatim>\<open>getopt\<close> returns when it is called until it returns \<^verbatim>\<open>-1\<close>,
  whatever the caller does with them.
\<close>

function getopt_results :: "bool \<Rightarrow> string \<Rightarrow> getopt_data \<Rightarrow> (char \<times> string option) list" where
  "getopt_results posixly_correct optstring d =
     (case getopt posixly_correct optstring d of
        (None, d') \<Rightarrow> []
      | (Some r, d') \<Rightarrow> r # getopt_results posixly_correct optstring d')"
  by pat_completeness auto
termination
  by (relation "measure (\<lambda>(p, os, d). getopt_size d)") (auto dest: getopt_size_decreases [OF sym])

declare getopt_results.simps [simp del]

definition parsed_options :: "bool \<Rightarrow> string list \<Rightarrow> (char \<times> string option) list" where
  "parsed_options posixly_correct argv =
     getopt_results posixly_correct ''r:m:ho'' (initial_getopt argv)"

text \<open>The rates given with \<^verbatim>\<open>-r\<close>, in the order of the command line, and the flags used.\<close>

definition rates :: "(char \<times> string option) list \<Rightarrow> int list" where
  "rates opts =
     concat (map (\<lambda>(c, optarg). case optarg of
                                    Some a \<Rightarrow> if c = CHR ''r'' then [atoi a] else []
                                  | None \<Rightarrow> []) opts)"

definition flags :: "(char \<times> string option) list \<Rightarrow> char list" where
  "flags opts = map fst opts"

text \<open>
  An option \<^verbatim>\<open>main\<close> accepts: \<^verbatim>\<open>-r\<close> with a rate from 4 to 200, \<^verbatim>\<open>-m\<close>, \<^verbatim>\<open>-o\<close>. Every other
  result of \<^verbatim>\<open>getopt\<close> (a rate out of range, \<^verbatim>\<open>-h\<close>, and \<^verbatim>\<open>?\<close> for an unknown option or
  a missing argument) makes \<^verbatim>\<open>main\<close> return; \<open>rejection\<close> is what it prints then.
\<close>

definition accepted :: "char \<times> string option \<Rightarrow> bool" where
  "accepted opt =
     (case opt of
        (c, optarg) \<Rightarrow>
          if c = CHR ''r'' then
            (case optarg of Some a \<Rightarrow> 4 \<le> atoi a \<and> atoi a \<le> 200 | None \<Rightarrow> False)
          else c = CHR ''m'' \<or> c = CHR ''o'')"

definition rejection :: "char \<times> string option \<Rightarrow> event list" where
  "rejection opt =
     (if fst opt = CHR ''r'' then [Printf ''sample_rate must be between 4 & 200'' []]
      else if fst opt = CHR ''h'' then print_usage
      else Printf ''opt: %c\<newline>'' [of_char (fst opt)] #
           Printf ''invalid argument\<newline>'' [] # print_usage)"

definition apply_option :: "'a main_vars \<Rightarrow> char \<times> string option \<Rightarrow> 'a main_vars" where
  "apply_option v opt =
     (case opt of
        (c, optarg) \<Rightarrow>
          if c = CHR ''r'' then
            (case optarg of
               Some a \<Rightarrow> v\<lparr>show_something := 1, conf := (conf v)\<lparr>dmp_sample_rate := atoi a\<rparr>\<rparr>
             | None \<Rightarrow> v)
          else if c = CHR ''m'' then
            v\<lparr>enable_mag := 1, conf := (conf v)\<lparr>enable_magnetometer := 1\<rparr>\<rparr>
          else if c = CHR ''o'' then v\<lparr>orientation_menu := 1\<rparr>
          else v)"

subsection \<open>The orientation prompt, in the words of its description\<close>

definition selection_keys :: string where
  "selection_keys = ''12345678q''"

definition orientation_of_key :: "char \<Rightarrow> rc_mpu_orientation_t option" where
  "orientation_of_key =
     map_of (zip ''12345678''
       [ORIENTATION_Z_UP, ORIENTATION_Z_DOWN, ORIENTATION_X_UP, ORIENTATION_X_DOWN,
        ORIENTATION_Y_UP, ORIENTATION_Y_DOWN, ORIENTATION_X_FORWARD, ORIENTATION_X_BACK])"

text \<open>
  The first character among \<^verbatim>\<open>1\<close> to \<^verbatim>\<open>8\<close> and \<^verbatim>\<open>q\<close> decides: a digit gives its
  orientation, \<^verbatim>\<open>q\<close> ends the process with status 0; without such a character the
  result is \<^verbatim>\<open>ORIENTATION_Z_UP\<close>.
\<close>

definition prompt_result_spec :: "string \<Rightarrow> outcome + rc_mpu_orientation_t" where
  "prompt_result_spec stdin =
     (case dropWhile (\<lambda>c. c \<notin> set selection_keys) stdin of
        [] \<Rightarrow> Inr ORIENTATION_Z_UP
      | c # rest \<Rightarrow>
          (case orientation_of_key c of Some x \<Rightarrow> Inr x | None \<Rightarrow> Inl (Exited 0)))"

text \<open>
  Every character before the deciding one is answered with \<^verbatim>\<open>invalid input\<close>, except a
  newline, which is answered with nothing; \<^verbatim>\<open>q\<close> is answered with \<^verbatim>\<open>Quitting\<close>.
\<close>

definition prompt_messages_spec :: "string \<Rightarrow> event list" where
  "prompt_messages_spec stdin =
     concat (map (\<lambda>c. if c = CHR ''\<newline>'' then [] else [Printf ''invalid input\<newline>'' []])
                 (takeWhile (\<lambda>c. c \<notin> set selection_keys) stdin)) @
     (case dropWhile (\<lambda>c. c \<notin> set selection_keys) stdin of
        [] \<Rightarrow> []
      | c # rest \<Rightarrow> if c = CHR ''q'' then [Printf ''Quitting\<newline>'' []] else [])"

text \<open>The characters read: all up to and including the deciding one, or up to \<^verbatim>\<open>EOF\<close>.\<close>

definition prompt_reads_spec :: "string \<Rightarrow> event list" where
  "prompt_reads_spec stdin =
     map (\<lambda>c. Getchar (Some c)) (takeWhile (\<lambda>c. c \<notin> set selection_keys) stdin) @
     (case dropWhile (\<lambda>c. c \<notin> set selection_keys) stdin of
        [] \<Rightarrow> [Getchar None]
      | c # rest \<Rightarrow> [Getchar (Some c)])"

subsection \<open>The configuration, in the words of its description\<close>

text \<open>
  The vendor's default with the bus and the two interrupt pin numbers set, the rate of
  the last \<^verbatim>\<open>-r\<close>, the magnetometer switched on if there is a \<^verbatim>\<open>-m\<close>, and the
  orientation the prompt returned if there is a \<^verbatim>\<open>-o\<close>. A field that is given its
  default's value is a field left as it was.
\<close>

definition spec_config ::
  "'a rc_mpu_config_t_scheme \<Rightarrow> (char \<times> string option) list \<Rightarrow>
   outcome + rc_mpu_orientation_t \<Rightarrow> 'a rc_mpu_config_t_scheme" where
  "spec_config default_config opts prompt_result =
     default_config
       \<lparr>i2c_bus := 2, gpio_interrupt_pin_chip := 3, gpio_interrupt_pin := 21,
        dmp_sample_rate :=
          (if rates opts = [] then dmp_sample_rate default_config else last (rates opts)),
        enable_magnetometer :=
          (if CHR ''m'' \<in> set (flags opts) then 1 else enable_magnetometer default_config),
        orient :=
          (case prompt_result of
             Inr x \<Rightarrow> if CHR ''o'' \<in> set (flags opts) then x else orient default_config
           | Inl out \<Rightarrow> orient default_config)\<rparr>"

text \<open>The calls of \<^verbatim>\<open>getopt\<close> of a loop that runs to its end.\<close>

definition getopt_calls :: "(char \<times> string option) list \<Rightarrow> event list" where
  "getopt_calls opts = map (\<lambda>r. Getopt (Some r)) opts @ [Getopt None]"

subsection \<open>\<^verbatim>\<open>main\<close> up to the call of \<^verbatim>\<open>signal\<close>, by the options of the command line\<close>

text \<open>
  What \<^verbatim>\<open>main\<close> has printed and decided when it arrives at the call of \<^verbatim>\<open>signal\<close>, told
  from the list of all options: the first option that is not accepted ends the
  process; without a \<^verbatim>\<open>-r\<close> the usage message does; with a \<^verbatim>\<open>-o\<close> the prompt is run.
\<close>

definition head_spec ::
  "bool \<Rightarrow> 'a rc_mpu_config_t_scheme \<Rightarrow> string list \<Rightarrow> string \<Rightarrow>
   event list \<times> (outcome + 'a rc_mpu_config_t_scheme)" where
  "head_spec posixly_correct default_config argv stdin =
     (let opts = parsed_options posixly_correct argv in
      case dropWhile accepted opts of
        bad # rest \<Rightarrow>
          (map (\<lambda>r. Getopt (Some r)) (takeWhile accepted opts) @ Getopt (Some bad) # rejection bad,
           Inl (Returned (- 1)))
      | [] \<Rightarrow>
          if rates opts = [] then
            (getopt_calls opts @ print_usage @
               [Printf ''please enable an option to print some data\<newline>'' []],
             Inl (Returned (- 1)))
          else if CHR ''o'' \<in> set (flags opts) then
            (case orientation_prompt stdin of
               (tr, Inl out) \<Rightarrow> (getopt_calls opts @ tr, Inl out)
             | (tr, Inr x) \<Rightarrow>
                 (getopt_calls opts @ tr, Inr (spec_config default_config opts (Inr x))))
          else
            (getopt_calls opts,
             Inr (spec_config default_config opts (snd (orientation_prompt stdin)))))"

subsection \<open>The places of \<^verbatim>\<open>main\<close> after the call of \<^verbatim>\<open>signal\<close>\<close>

text \<open>
  Before the initialisation is over; after it has failed; in the idle loop; after the
  idle loop. A process killed by SIGINT never came to the initialisation.
\<close>

fun before_init :: "pc \<Rightarrow> bool" where
  "before_init At_signal = True"
| "before_init At_set_running = True"
| "before_init At_initialize = True"
| "before_init (Halted out) = (out = Killed_by_SIGINT)"
| "before_init p = False"

fun init_failed :: "pc \<Rightarrow> bool" where
  "init_failed At_failed_message = True"
| "init_failed At_failed_return = True"
| "init_failed (Halted out) = (out = Returned (- 1))"
| "init_failed p = False"

fun in_loop :: "pc \<Rightarrow> bool" where
  "in_loop At_loop_test = True"
| "in_loop At_usleep = True"
| "in_loop p = False"

fun after_loop :: "pc \<Rightarrow> bool" where
  "after_loop At_power_off = True"
| "after_loop At_newline = True"
| "after_loop At_fflush = True"
| "after_loop At_return_0 = True"
| "after_loop (Halted out) = (out = Returned 0)"
| "after_loop p = False"

text \<open>
  The events from the call of \<^verbatim>\<open>signal\<close> up to a place of \<^verbatim>\<open>main\<close>, after \<open>n\<close> sleeps,
  and the invariant that ties the state of the process to its place.
\<close>

definition idle_events :: "int \<Rightarrow> nat \<Rightarrow> event list" where
  "idle_events rc n =
     [Signal_SIGINT, Rc_mpu_initialize_dmp rc] @ print_header @
     [Rc_mpu_set_dmp_callback] @ replicate n (Rc_usleep 100000)"

fun tail_events :: "int \<Rightarrow> nat \<Rightarrow> pc \<Rightarrow> event list" where
  "tail_events rc n At_signal = []"
| "tail_events rc n At_set_running = [Signal_SIGINT]"
| "tail_events rc n At_initialize = [Signal_SIGINT]"
| "tail_events rc n At_failed_message = [Signal_SIGINT, Rc_mpu_initialize_dmp rc]"
| "tail_events rc n At_failed_return =
     [Signal_SIGINT, Rc_mpu_initialize_dmp rc, Printf ''rc_mpu_initialize_failed\<newline>'' []]"
| "tail_events rc n At_header = [Signal_SIGINT, Rc_mpu_initialize_dmp rc]"
| "tail_events rc n At_set_callback = [Signal_SIGINT, Rc_mpu_initialize_dmp rc] @ print_header"
| "tail_events rc n At_loop_test = idle_events rc n"
| "tail_events rc n At_usleep = idle_events rc n"
| "tail_events rc n At_power_off = idle_events rc n"
| "tail_events rc n At_newline = idle_events rc n @ [Rc_mpu_power_off]"
| "tail_events rc n At_fflush = idle_events rc n @ [Rc_mpu_power_off, Printf ''\<newline>'' []]"
| "tail_events rc n At_return_0 =
     idle_events rc n @ [Rc_mpu_power_off, Printf ''\<newline>'' [], Fflush_stdout]"
| "tail_events rc n (Halted out) =
     (if out = Returned 0 then
        idle_events rc n @ [Rc_mpu_power_off, Printf ''\<newline>'' [], Fflush_stdout]
      else if out = Returned (- 1) then
        [Signal_SIGINT, Rc_mpu_initialize_dmp rc, Printf ''rc_mpu_initialize_failed\<newline>'' []]
      else [])"

definition tail_inv :: "event list \<Rightarrow> 'a rc_mpu_config_t_scheme \<Rightarrow> int \<Rightarrow> 'a process \<Rightarrow> bool" where
  "tail_inv tr0 c rc s \<longleftrightarrow>
     (\<exists>n. trace s = tr0 @ tail_events rc n (pc s)) \<and>
     handler_installed s = (pc s \<noteq> At_signal \<and> pc s \<noteq> Halted Killed_by_SIGINT) \<and>
     initialize_arg s = (if before_init (pc s) then None else Some c) \<and>
     (pc s = At_signal \<or> pc s = At_set_running \<or> pc s = Halted Killed_by_SIGINT \<or>
        after_loop (pc s) \<longrightarrow> running s = 0) \<and>
     (init_failed (pc s) \<longrightarrow> rc \<noteq> 0) \<and>
     (pc s = At_header \<or> pc s = At_set_callback \<or> in_loop (pc s) \<or> after_loop (pc s) \<longrightarrow> rc = 0) \<and>
     (\<forall>out. pc s = Halted out \<longrightarrow>
        out = Returned 0 \<or> out = Returned (- 1) \<or> out = Killed_by_SIGINT)"

subsection \<open>Accepted command lines, and the events of the first part of \<^verbatim>\<open>main\<close>\<close>

text \<open>
  A command line is accepted when every option on it is and there is a \<^verbatim>\<open>-r\<close> among
  them. The first part of \<^verbatim>\<open>main\<close> calls nothing but \<^verbatim>\<open>getopt\<close>, \<^verbatim>\<open>printf\<close> and \<^verbatim>\<open>getchar\<close>.
\<close>

definition command_line_accepted :: "bool \<Rightarrow> string list \<Rightarrow> bool" where
  "command_line_accepted posixly_correct argv \<longleftrightarrow>
     list_all accepted (parsed_options posixly_correct argv) \<and>
     rates (parsed_options posixly_correct argv) \<noteq> []"

definition prompt_events :: "(char \<times> string option) list \<Rightarrow> string \<Rightarrow> event list" where
  "prompt_events opts stdin =
     (if CHR ''o'' \<in> set (flags opts) then fst (orientation_prompt stdin) else [])"

fun is_front :: "event \<Rightarrow> bool" where
  "is_front (Printf fmt args) = True"
| "is_front (Getopt r) = True"
| "is_front (Getchar c) = True"
| "is_front e = False"

text \<open>
  The prompt ends the process when there is a \<^verbatim>\<open>-o\<close> and the answer is \<^verbatim>\<open>q\<close>; the events
  of a failed initialisation.
\<close>

definition prompt_quits :: "(char \<times> string option) list \<Rightarrow> string \<Rightarrow> bool" where
  "prompt_quits opts stdin \<longleftrightarrow>
     CHR ''o'' \<in> set (flags opts) \<and> isl (snd (orientation_prompt stdin))"


text \<open>
  The rates given with \<^verbatim>\<open>-r\<close> that are in range, and the three ways in which \<^verbatim>\<open>main\<close>
  prints the usage message: for \<^verbatim>\<open>-h\<close>, for the want of a \<^verbatim>\<open>-r\<close>, and for an error of
  \<^verbatim>\<open>getopt\<close> (63 is the character \<^verbatim>\<open>?\<close>).
\<close>

definition valid_rates :: "(char \<times> string option) list \<Rightarrow> int list" where
  "valid_rates opts = filter (\<lambda>x. 4 \<le> x \<and> x \<le> 200) (rates opts)"

definition range_message :: "event list" where
  "range_message = [Printf ''sample_rate must be between 4 & 200'' []]"

definition usage_outputs :: "event list list" where
  "usage_outputs =
     [print_usage,
      print_usage @ [Printf ''please enable an option to print some data\<newline>'' []],
      Printf ''opt: %c\<newline>'' [63] # Printf ''invalid argument\<newline>'' [] # print_usage]"

text \<open>
  The first option of the command line that is not accepted is a \<^verbatim>\<open>-r\<close>: every option
  before it is accepted, and its own rate is out of range.
\<close>

definition stops_at_rate :: "(char \<times> string option) list \<Rightarrow> bool" where
  "stops_at_rate opts =
     (case dropWhile accepted opts of
        [] \<Rightarrow> False
      | bad # rest \<Rightarrow> fst bad = CHR ''r'')"

subsection \<open>Where the option loop arrives\<close>

text \<open>
  \<open>loop_reaches posixly_correct argc v d tr v' d'\<close>: the loop, started with the
  variables \<open>v\<close> and the state \<open>d\<close> of \<^verbatim>\<open>getopt\<close>, arrives after some iterations, and
  the events \<open>tr\<close>, at the evaluation of its condition with \<open>v'\<close> and \<open>d'\<close>. Then what
  \<^verbatim>\<open>getopt\<close> finds missing, and what \<^verbatim>\<open>main\<close> does about it.
\<close>

inductive loop_reaches ::
  "bool \<Rightarrow> nat \<Rightarrow> 'a main_vars \<Rightarrow> getopt_data \<Rightarrow> event list \<Rightarrow> 'a main_vars \<Rightarrow> getopt_data \<Rightarrow> bool"
  for posixly_correct :: bool and argc :: nat where
    start: "loop_reaches posixly_correct argc v d [] v d"
  | iterate:
      "loop_iteration posixly_correct argc v d = (tr, Continue v1 d1) \<Longrightarrow>
       loop_reaches posixly_correct argc v1 d1 tr' v2 d2 \<Longrightarrow>
       loop_reaches posixly_correct argc v d (tr @ tr') v2 d2"

code_pred loop_reaches .

definition missing_argument_events :: "event list" where
  "missing_argument_events =
     Getopt (Some (CHR ''?'', None)) #
     Printf ''opt: %c\<newline>'' [63] #
     Printf ''invalid argument\<newline>'' [] # print_usage"

text \<open>The event \<open>a\<close> occurs in a trace before the first \<open>b\<close>.\<close>

definition precedes :: "event \<Rightarrow> event \<Rightarrow> event list \<Rightarrow> bool" where
  "precedes a b tr \<longleftrightarrow> a \<in> set (takeWhile (\<lambda>e. e \<noteq> b) tr)"

subsection \<open>After the idle loop\<close>




subsection \<open>Example inputs\<close>

definition example_config :: rc_mpu_config_t where
  "example_config =
     \<lparr>gpio_interrupt_pin_chip = 0, gpio_interrupt_pin = 0, i2c_bus = 1,
      enable_magnetometer = 0, dmp_sample_rate = 100, orient = ORIENTATION_Z_UP\<rparr>"

definition example_ops :: "int double_ops" where
  "example_ops = \<lparr>fmul = (*), RAD_TO_DEG = 57\<rparr>"

definition example_data :: "int rc_mpu_data_t" where
  "example_data =
     \<lparr>dmp_TaitBryan = (\<lambda>i. case i of TB_PITCH_X \<Rightarrow> 1 | TB_ROLL_Y \<Rightarrow> 2 | TB_YAW_Z \<Rightarrow> 3)\<rparr>"

definition example_fmt :: "nat \<Rightarrow> nat \<Rightarrow> int \<Rightarrow> string" where
  "example_fmt w p x = (if x = 57 then ''  57.0'' else if x = 114 then '' 114.0'' else '' 171.0'')"

section \<open>Properties\<close>

subsection \<open>The callback\<close>

text \<open>
  C2. One call of the callback writes, for every content of the data struct, a
  carriage return, a space, and then the three angles in the order pitch, roll, yaw,
  each the stored value multiplied by \<^verbatim>\<open>RAD_TO_DEG\<close> and written in a field of width 6
  with one decimal, separated by one space and followed by a space and a bar; the
  doubles it hands to \<^verbatim>\<open>printf\<close> are these three, and its last call flushes standard
  output.
\<close>

theorem print_data_output:
  "callback_stdout_of fmt_f (print_data ops data) =
     [CR] @ '' '' @
     fmt_f 6 1 (fmul ops (dmp_TaitBryan data TB_PITCH_X) (RAD_TO_DEG ops)) @ '' '' @
     fmt_f 6 1 (fmul ops (dmp_TaitBryan data TB_ROLL_Y) (RAD_TO_DEG ops)) @ '' '' @
     fmt_f 6 1 (fmul ops (dmp_TaitBryan data TB_YAW_Z) (RAD_TO_DEG ops)) @ '' |'' \<and>
   concat (map printed_doubles (print_data ops data)) =
     [fmul ops (dmp_TaitBryan data TB_PITCH_X) (RAD_TO_DEG ops),
      fmul ops (dmp_TaitBryan data TB_ROLL_Y) (RAD_TO_DEG ops),
      fmul ops (dmp_TaitBryan data TB_YAW_Z) (RAD_TO_DEG ops)] \<and>
   last (print_data ops data) = Fflush_stdout_callback"
  by (simp add: print_data_def isdigit_def digit_val_def)

theorem print_data_output_witness:
  "callback_stdout_of example_fmt (print_data example_ops example_data) =
     [CR] @ ''   57.0  114.0  171.0 |''"
  using print_data_output [of example_fmt example_ops example_data]
  by (simp add: example_fmt_def example_ops_def example_data_def)

subsection \<open>The orientation prompt\<close>

lemma prompt_loop_result: "snd (prompt_loop stdin) = prompt_result_spec stdin"
  by (induction stdin)
     (auto simp: prompt_result_spec_def selection_keys_def orientation_of_key_def split: prod.splits)

lemma prompt_loop_messages:
  "filter is_printf (fst (prompt_loop stdin)) = prompt_messages_spec stdin"
  by (induction stdin)
     (auto simp: prompt_messages_spec_def selection_keys_def split: prod.splits)

lemma prompt_loop_reads:
  "filter (\<lambda>e. \<not> is_printf e) (fst (prompt_loop stdin)) = prompt_reads_spec stdin"
  by (induction stdin)
     (auto simp: prompt_reads_spec_def selection_keys_def split: prod.splits)

lemma filter_prompt_menu:
  "filter is_printf prompt_menu = prompt_menu"
  "filter (\<lambda>e. \<not> is_printf e) prompt_menu = []"
  by (simp_all add: prompt_menu_def)

text \<open>
  C8. For every input, the prompt returns what the first character among \<^verbatim>\<open>1\<close> to
  \<^verbatim>\<open>8\<close> and \<^verbatim>\<open>q\<close> decides (the orientation of the digit, or the end of the process
  with status 0 for \<^verbatim>\<open>q\<close>), and \<^verbatim>\<open>ORIENTATION_Z_UP\<close> when the input ends without one.
  After the menu it prints \<^verbatim>\<open>invalid input\<close> once for every character before the
  deciding one that is not a newline, nothing for a newline, and \<^verbatim>\<open>Quitting\<close> for
  \<^verbatim>\<open>q\<close>; it reads no character beyond the deciding one.
\<close>

theorem orientation_prompt_behaviour:
  "snd (orientation_prompt stdin) = prompt_result_spec stdin \<and>
   filter is_printf (fst (orientation_prompt stdin)) = prompt_menu @ prompt_messages_spec stdin \<and>
   filter (\<lambda>e. \<not> is_printf e) (fst (orientation_prompt stdin)) = prompt_reads_spec stdin"
  by (simp add: orientation_prompt_def split_beta filter_prompt_menu
      prompt_loop_result prompt_loop_messages prompt_loop_reads)

theorem orientation_prompt_behaviour_witness:
  "snd (orientation_prompt ''x\<newline>7q'') = Inr ORIENTATION_X_FORWARD \<and>
   snd (orientation_prompt ''\<newline>yq3'') = Inl (Exited 0) \<and>
   snd (orientation_prompt ''abc'') = Inr ORIENTATION_Z_UP \<and>
   filter is_printf (fst (orientation_prompt ''x\<newline>7q'')) =
     prompt_menu @ [Printf ''invalid input\<newline>'' []] \<and>
   filter (\<lambda>e. \<not> is_printf e) (fst (orientation_prompt ''x\<newline>7q'')) =
     [Getchar (Some CHR ''x''), Getchar (Some CHR ''\<newline>''), Getchar (Some CHR ''7'')]"
  using orientation_prompt_behaviour [of "''x\<newline>7q''"]
    orientation_prompt_behaviour [of "''\<newline>yq3''"]
    orientation_prompt_behaviour [of "''abc''"]
  by (simp add: prompt_result_spec_def prompt_messages_spec_def
      prompt_reads_spec_def selection_keys_def orientation_of_key_def)

subsection \<open>The option loop\<close>

text \<open>With the option string of \<^verbatim>\<open>main\<close>, \<^verbatim>\<open>getopt\<close> has five kinds of results.\<close>

lemma strchr_rmho:
  "strchr ''r:m:ho'' c =
     (if c = CHR ''r'' then Some '':m:ho''
      else if c = CHR '':'' then Some ''m:ho''
      else if c = CHR ''m'' then Some '':ho''
      else if c = CHR ''h'' then Some ''o''
      else if c = CHR ''o'' then Some []
      else None)"
  by (simp add: strchr_def)

lemma short_option_rmho:
  "short_option ''r:m:ho'' c nc args =
     (if c = CHR ''r'' \<or> c = CHR ''m'' then
        (if nc \<noteq> [] then ((c, Some nc), \<lparr>nextchar = [], args_left = args\<rparr>)
         else (case args of
                 [] \<Rightarrow> ((CHR ''?'', None), \<lparr>nextchar = [], args_left = []\<rparr>)
               | a # args' \<Rightarrow> ((c, Some a), \<lparr>nextchar = [], args_left = args'\<rparr>)))
      else if c = CHR ''h'' \<or> c = CHR ''o'' then ((c, None), \<lparr>nextchar = nc, args_left = args\<rparr>)
      else ((CHR ''?'', None), \<lparr>nextchar = nc, args_left = args\<rparr>))"
  by (simp add: short_option_def strchr_rmho)

lemma short_option_rmho_cases:
  assumes "short_option ''r:m:ho'' c0 nc args = ((c, oa), d')"
  shows "(c = CHR ''r'' \<and> oa \<noteq> None) \<or> (c = CHR ''m'' \<and> oa \<noteq> None) \<or>
         (c = CHR ''o'' \<and> oa = None) \<or> (c = CHR ''h'' \<and> oa = None) \<or>
         (c = CHR ''?'' \<and> oa = None)"
proof (cases "c0 = CHR ''r'' \<or> c0 = CHR ''m''")
  case True
  show ?thesis
  proof (cases "nc = []")
    case False
    with True assms show ?thesis by (auto simp: short_option_rmho)
  next
    case nc: True
    show ?thesis
    proof (cases args)
      case Nil
      with True nc assms show ?thesis by (auto simp: short_option_rmho)
    next
      case (Cons a args')
      with True nc assms show ?thesis by (auto simp: short_option_rmho)
    qed
  qed
next
  case False
  with assms show ?thesis by (auto simp: short_option_rmho split: if_splits)
qed

lemma getopt_Some_short_option:
  assumes "getopt posix optstring d = (Some r, d')"
  shows "\<exists>c nc args. short_option optstring c nc args = (r, d')"
  using assms
  by (auto simp: getopt_def Let_def split: list.splits if_splits prod.splits)

lemma getopt_rmho_cases:
  assumes "getopt posix ''r:m:ho'' d = (Some (c, oa), d')"
  shows "(c = CHR ''r'' \<and> oa \<noteq> None) \<or> (c = CHR ''m'' \<and> oa \<noteq> None) \<or>
         (c = CHR ''o'' \<and> oa = None) \<or> (c = CHR ''h'' \<and> oa = None) \<or>
         (c = CHR ''?'' \<and> oa = None)"
  using getopt_Some_short_option[OF assms] short_option_rmho_cases by blast

lemma loop_iteration_cases:
  assumes "1 < argc"
  shows "loop_iteration posix argc v d =
     (case getopt posix ''r:m:ho'' d of
        (None, d') \<Rightarrow> ([Getopt None], Loop_done v)
      | (Some opt, d') \<Rightarrow>
          if accepted opt then ([Getopt (Some opt)], Continue (apply_option v opt) d')
          else (Getopt (Some opt) # rejection opt, Return_in_loop (Returned (- 1))))"
proof (cases "getopt posix ''r:m:ho'' d")
  case (Pair r d')
  show ?thesis
  proof (cases r)
    case None
    with Pair show ?thesis by (simp add: loop_iteration_def)
  next
    case (Some opt)
    obtain c oa where opt: "opt = (c, oa)" by (cases opt)
    from getopt_rmho_cases[of posix d c oa d'] Pair Some opt
    consider a where "c = CHR ''r''" "oa = Some a" | a where "c = CHR ''m''" "oa = Some a"
      | "c = CHR ''o''" "oa = None" | "c = CHR ''h''" "oa = None" | "c = CHR ''?''" "oa = None"
      by auto
    then show ?thesis
    proof cases
      case 1
      with Pair Some opt assms show ?thesis
        by (simp add: loop_iteration_def accepted_def rejection_def apply_option_def Let_def not_le)
    next
      case 2
      with Pair Some opt assms show ?thesis
        by (simp add: loop_iteration_def accepted_def rejection_def apply_option_def)
    next
      case 3
      with Pair Some opt assms show ?thesis
        by (simp add: loop_iteration_def accepted_def rejection_def apply_option_def)
    next
      case 4
      with Pair Some opt assms show ?thesis
        by (simp add: loop_iteration_def accepted_def rejection_def apply_option_def)
    next
      case 5
      with Pair Some opt assms show ?thesis
        by (simp add: loop_iteration_def accepted_def rejection_def apply_option_def)
    qed
  qed
qed

lemma parse_options_char:
  assumes "1 < argc"
  shows "parse_options posix argc v d =
     (let opts = getopt_results posix ''r:m:ho'' d in
      case dropWhile accepted opts of
        [] \<Rightarrow> (map (\<lambda>r. Getopt (Some r)) opts @ [Getopt None], Inr (foldl apply_option v opts))
      | bad # rest \<Rightarrow>
          (map (\<lambda>r. Getopt (Some r)) (takeWhile accepted opts) @ Getopt (Some bad) # rejection bad,
           Inl (Returned (- 1))))"
proof (induction "getopt_size d" arbitrary: v d rule: less_induct)
  case less
  show ?case
  proof (cases "getopt posix ''r:m:ho'' d")
    case (Pair r d')
    show ?thesis
    proof (cases r)
      case None
      with Pair assms show ?thesis
        by (subst parse_options.simps, subst getopt_results.simps)
           (simp add: loop_iteration_cases)
    next
      case (Some opt)
      show ?thesis
      proof (cases "accepted opt")
        case True
        from Pair Some have "getopt_size d' < getopt_size d"
          by (simp add: getopt_size_decreases)
        note ih = less[OF this, of "apply_option v opt"]
        show ?thesis
        proof (cases "dropWhile accepted (getopt_results posix ''r:m:ho'' d')")
          case Nil
          then show ?thesis
            by (subst parse_options.simps, subst getopt_results.simps)
               (simp add: loop_iteration_cases[OF assms] Pair Some True ih Let_def
                  del: dropWhile_eq_Nil_conv)
        next
          case (Cons bad rest)
          then show ?thesis
            by (subst parse_options.simps, subst getopt_results.simps)
               (simp add: loop_iteration_cases[OF assms] Pair Some True ih Let_def
                  del: dropWhile_eq_Nil_conv)
        qed
      next
        case False
        with Pair Some assms show ?thesis
          by (subst parse_options.simps, subst getopt_results.simps)
             (simp add: loop_iteration_cases)
      qed
    qed
  qed
qed


text \<open>What the accepted options do to the variables of \<^verbatim>\<open>main\<close>.\<close>

lemma rates_simps [simp]:
  "rates [] = []"
  "rates ((c, None) # opts) = rates opts"
  "rates ((c, Some a) # opts) = (if c = CHR ''r'' then atoi a # rates opts else rates opts)"
  by (simp_all add: rates_def)

lemma flags_simps [simp]:
  "flags [] = []"
  "flags ((c, oa) # opts) = c # flags opts"
  by (simp_all add: flags_def)

lemma foldl_show_something:
  "show_something (foldl apply_option v opts) = (if rates opts = [] then show_something v else 1)"
proof (induction opts arbitrary: v)
  case Nil
  show ?case by simp
next
  case (Cons opt opts)
  obtain c oa where opt: "opt = (c, oa)" by (cases opt)
  show ?case
    by (cases oa) (simp_all add: opt Cons.IH, simp_all add: apply_option_def)
qed

lemma foldl_orientation_menu:
  "orientation_menu (foldl apply_option v opts) =
     (if CHR ''o'' \<in> set (flags opts) then 1 else orientation_menu v)"
proof (induction opts arbitrary: v)
  case Nil
  show ?case by simp
next
  case (Cons opt opts)
  obtain c oa where opt: "opt = (c, oa)" by (cases opt)
  show ?case
    by (cases oa) (simp_all add: opt Cons.IH, simp_all add: apply_option_def)
qed

lemma foldl_conf:
  "conf (foldl apply_option v opts) =
     (conf v)\<lparr>dmp_sample_rate :=
                (if rates opts = [] then dmp_sample_rate (conf v) else last (rates opts)),
              enable_magnetometer :=
                (if CHR ''m'' \<in> set (flags opts) then 1 else enable_magnetometer (conf v))\<rparr>"
proof (induction opts arbitrary: v)
  case Nil
  show ?case by simp
next
  case (Cons opt opts)
  obtain c oa where opt: "opt = (c, oa)" by (cases opt)
  show ?case
    by (cases oa) (simp_all add: opt Cons.IH, simp_all add: apply_option_def)
qed


lemma parse_options_initial:
  "parse_options posix (length argv) v (initial_getopt argv) =
     (case dropWhile accepted (parsed_options posix argv) of
        [] \<Rightarrow> (getopt_calls (parsed_options posix argv),
               Inr (foldl apply_option v (parsed_options posix argv)))
      | bad # rest \<Rightarrow>
          (map (\<lambda>r. Getopt (Some r)) (takeWhile accepted (parsed_options posix argv)) @
             Getopt (Some bad) # rejection bad,
           Inl (Returned (- 1))))"
proof (cases "1 < length argv")
  case True
  then show ?thesis
    by (simp add: parse_options_char parsed_options_def getopt_calls_def Let_def
        del: dropWhile_eq_Nil_conv split: list.split)
next
  case False
  then have tl: "tl argv = []" by (cases argv) auto
  have g: "getopt posix ''r:m:ho'' \<lparr>nextchar = [], args_left = []\<rparr> =
             (None, \<lparr>nextchar = [], args_left = []\<rparr>)"
    by (simp add: getopt_def)
  have "parsed_options posix argv = []"
    unfolding parsed_options_def initial_getopt_def tl
    by (subst getopt_results.simps) (simp add: g)
  moreover have "parse_options posix (length argv) v (initial_getopt argv) = ([Getopt None], Inr v)"
    unfolding initial_getopt_def tl
    by (subst parse_options.simps) (simp add: loop_iteration_def g)
  ultimately show ?thesis by (simp add: getopt_calls_def)
qed


text \<open>The first part of \<^verbatim>\<open>main\<close> does what \<open>head_spec\<close> says.\<close>

lemma conf_foldl_initial:
  "conf (foldl apply_option (initial_vars dflt) opts)\<lparr>orient := x\<rparr> =
     dflt\<lparr>i2c_bus := 2, gpio_interrupt_pin_chip := 3, gpio_interrupt_pin := 21,
          dmp_sample_rate := (if rates opts = [] then dmp_sample_rate dflt else last (rates opts)),
          enable_magnetometer :=
            (if CHR ''m'' \<in> set (flags opts) then 1 else enable_magnetometer dflt),
          orient := x\<rparr>"
  by (simp add: foldl_conf initial_vars_def I2C_BUS_def GPIO_INT_PIN_CHIP_def GPIO_INT_PIN_PIN_def)

lemma conf_foldl_initial':
  "conf (foldl apply_option (initial_vars dflt) opts) =
     dflt\<lparr>i2c_bus := 2, gpio_interrupt_pin_chip := 3, gpio_interrupt_pin := 21,
          dmp_sample_rate := (if rates opts = [] then dmp_sample_rate dflt else last (rates opts)),
          enable_magnetometer :=
            (if CHR ''m'' \<in> set (flags opts) then 1 else enable_magnetometer dflt),
          orient := orient dflt\<rparr>"
  by (simp add: foldl_conf initial_vars_def I2C_BUS_def GPIO_INT_PIN_CHIP_def GPIO_INT_PIN_PIN_def)

lemma main_head_spec:
  "(case main_head posix dflt argv stdin of
      (tr, Inl out) \<Rightarrow> (tr, Inl out)
    | (tr, Inr v) \<Rightarrow> (tr, Inr (conf v))) = head_spec posix dflt argv stdin"
proof (cases "dropWhile accepted (parsed_options posix argv)")
  case (Cons bad rest)
  then show ?thesis
    by (simp add: Let_def main_head_def head_spec_def parse_options_initial)
next
  case Nil
  note none_rejected = Nil
  show ?thesis
  proof (cases "rates (parsed_options posix argv) = []")
    case True
    with none_rejected show ?thesis
      by (simp add: Let_def main_head_def head_spec_def parse_options_initial foldl_show_something
          initial_vars_def del: dropWhile_eq_Nil_conv)
  next
    case False
    note has_rate = False
    show ?thesis
    proof (cases "CHR ''o'' \<in> set (flags (parsed_options posix argv))")
      case True
      obtain tr r where p: "orientation_prompt stdin = (tr, r)" by (cases "orientation_prompt stdin")
      show ?thesis
      proof (cases r)
        case (Inl out)
        with none_rejected has_rate True p show ?thesis
          by (simp add: Let_def main_head_def head_spec_def parse_options_initial foldl_show_something
              foldl_orientation_menu del: dropWhile_eq_Nil_conv)
      next
        case (Inr x)
        with none_rejected has_rate True p show ?thesis
          by (simp add: Let_def main_head_def head_spec_def parse_options_initial foldl_show_something
              foldl_orientation_menu conf_foldl_initial spec_config_def
              del: dropWhile_eq_Nil_conv)
      qed
    next
      case False
      have "orientation_menu (foldl apply_option (initial_vars dflt) (parsed_options posix argv)) = 0"
        using False by (simp add: foldl_orientation_menu initial_vars_def)
      with none_rejected has_rate False show ?thesis
        by (simp add: Let_def main_head_def head_spec_def parse_options_initial foldl_show_something
            conf_foldl_initial' spec_config_def del: dropWhile_eq_Nil_conv split: sum.split)
    qed
  qed
qed

subsection \<open>The invariant of the second part of \<^verbatim>\<open>main\<close>\<close>

lemma tail_inv_sigint:
  assumes "tail_inv tr0 c rc s"
  shows "tail_inv tr0 c rc (deliver_sigint s)"
  using assms
  by (cases "pc s")
     (auto simp: tail_inv_def deliver_sigint_def signal_handler_def)

lemma idle_events_Suc: "idle_events rc n @ [Rc_usleep 100000] = idle_events rc (Suc n)"
  by (simp add: idle_events_def replicate_append_same)

lemma tail_inv_main_step:
  assumes "tail_inv tr0 c rc s"
  shows "tail_inv tr0 c rc (main_step c rc s)"
proof (cases "pc s")
  case At_usleep
  from assms At_usleep obtain n where "trace s = tr0 @ idle_events rc n"
    by (auto simp: tail_inv_def)
  then have "trace s @ [Rc_usleep 100000] = tr0 @ tail_events rc (Suc n) At_loop_test"
    by (simp add: idle_events_Suc)
  with assms At_usleep show ?thesis
    by (auto simp: tail_inv_def main_step_def)
next
  case At_set_callback
  from assms At_set_callback
  have "trace s @ [Rc_mpu_set_dmp_callback] = tr0 @ tail_events rc 0 At_loop_test"
    by (auto simp: tail_inv_def idle_events_def)
  with assms At_set_callback show ?thesis
    by (auto simp: tail_inv_def main_step_def)
next
  case (Halted out)
  with assms show ?thesis by (simp add: main_step_def)
qed (use assms in \<open>auto simp: tail_inv_def main_step_def\<close>)

lemma tail_inv_perform:
  "tail_inv tr0 c rc s \<Longrightarrow> tail_inv tr0 c rc (perform c rc a s)"
  by (cases a) (simp_all add: perform_def tail_inv_main_step tail_inv_sigint)

lemma tail_inv_run:
  "tail_inv tr0 c rc s \<Longrightarrow> tail_inv tr0 c rc (run c rc schedule s)"
  by (induction schedule arbitrary: s) (simp_all add: tail_inv_perform)

lemma tail_inv_initial:
  "tail_inv tr0 c rc \<lparr>pc = At_signal, running = 0, handler_installed = False,
     initialize_arg = None, trace = tr0\<rparr>"
  by (simp add: tail_inv_def)


subsection \<open>The whole of \<^verbatim>\<open>main\<close>, by the two parts\<close>

lemma main_Inl:
  assumes "head_spec posix dflt argv stdin = (tr, Inl out)"
  shows "main posix dflt rc argv stdin schedule =
           \<lparr>pc = Halted out, running = 0, handler_installed = False, initialize_arg = None,
            trace = tr\<rparr>"
proof -
  obtain tr' r where h: "main_head posix dflt argv stdin = (tr', r)"
    by (cases "main_head posix dflt argv stdin")
  with main_head_spec[of posix dflt argv stdin] assms have "tr' = tr" "r = Inl out"
    by (auto split: sum.splits)
  with h show ?thesis by (simp add: main_def)
qed

lemma main_Inr:
  assumes "head_spec posix dflt argv stdin = (tr, Inr c)"
  shows "main posix dflt rc argv stdin schedule =
           run c rc schedule
             \<lparr>pc = At_signal, running = 0, handler_installed = False, initialize_arg = None,
              trace = tr\<rparr>"
proof -
  obtain tr' r where h: "main_head posix dflt argv stdin = (tr', r)"
    by (cases "main_head posix dflt argv stdin")
  with main_head_spec[of posix dflt argv stdin] assms obtain v where "tr' = tr" "r = Inr v" "conf v = c"
    by (auto split: sum.splits)
  with h show ?thesis by (simp add: main_def)
qed

lemma main_Inr_inv:
  assumes "head_spec posix dflt argv stdin = (tr, Inr c)"
  shows "tail_inv tr c rc (main posix dflt rc argv stdin schedule)"
  by (simp add: main_Inr[OF assms] tail_inv_run tail_inv_initial)

lemma prompt_loop_front: "\<forall>e\<in>set (fst (prompt_loop stdin)). is_front e"
  by (induction stdin) (auto split: prod.splits)

lemma orientation_prompt_front: "\<forall>e\<in>set (fst (orientation_prompt stdin)). is_front e"
  using prompt_loop_front[of stdin]
  by (auto simp: orientation_prompt_def prompt_menu_def split: prod.splits)

lemma orientation_prompt_Inl:
  "snd (orientation_prompt stdin) = Inl out \<Longrightarrow> out = Exited 0"
  by (auto simp: orientation_prompt_def split_beta prompt_loop_result prompt_result_spec_def
      split: list.splits option.splits)

lemma rejection_front: "\<forall>e\<in>set (rejection opt). is_front e"
  by (simp add: rejection_def print_usage_def)

lemma getopt_calls_front: "\<forall>e\<in>set (getopt_calls opts). is_front e"
  by (auto simp: getopt_calls_def)

lemma head_spec_front: "\<forall>e\<in>set (fst (head_spec posix dflt argv stdin)). is_front e"
  using orientation_prompt_front[of stdin] rejection_front getopt_calls_front
  by (auto simp: head_spec_def Let_def print_usage_def
      split: list.splits prod.splits sum.splits dest: set_takeWhileD)

lemma dropWhile_accepted_Nil:
  "dropWhile accepted opts = [] \<longleftrightarrow> list_all accepted opts"
  by (simp add: list_all_iff)

lemma head_spec_Inr:
  assumes "head_spec posix dflt argv stdin = (tr, Inr c)"
  shows "command_line_accepted posix argv"
    and "c = spec_config dflt (parsed_options posix argv) (snd (orientation_prompt stdin))"
    and "tr = getopt_calls (parsed_options posix argv) @
              prompt_events (parsed_options posix argv) stdin"
    and "CHR ''o'' \<in> set (flags (parsed_options posix argv)) \<longrightarrow>
           \<not> isl (snd (orientation_prompt stdin))"
  using assms
  by (auto simp: head_spec_def Let_def command_line_accepted_def prompt_events_def list_all_iff
      split: list.splits if_splits prod.splits sum.splits)

lemma head_spec_rejected:
  assumes "\<not> command_line_accepted posix argv"
  shows "snd (head_spec posix dflt argv stdin) = Inl (Returned (- 1))"
  using assms
  by (auto simp: head_spec_def Let_def command_line_accepted_def list_all_iff
      split: list.splits)


lemma tail_events_initialize:
  "Rc_mpu_initialize_dmp r \<in> set (tail_events rc n p) \<Longrightarrow> r = rc \<and> \<not> before_init p"
  by (cases p) (auto simp: idle_events_def print_header_def split: if_splits)

subsection \<open>The configuration given to the initialisation\<close>

text \<open>
  C1. Whenever \<^verbatim>\<open>main\<close> has called \<^verbatim>\<open>rc_mpu_initialize_dmp\<close>, the configuration it gave is
  the vendor's default with \<^verbatim>\<open>i2c_bus\<close> 2, \<^verbatim>\<open>gpio_interrupt_pin_chip\<close> 3 and
  \<^verbatim>\<open>gpio_interrupt_pin\<close> 21, with \<^verbatim>\<open>dmp_sample_rate\<close> the rate of the last \<^verbatim>\<open>-r\<close> (there
  is one), with \<^verbatim>\<open>enable_magnetometer\<close> 1 if there is a \<^verbatim>\<open>-m\<close>, and with \<^verbatim>\<open>orient\<close> the
  orientation the prompt returned if there is a \<^verbatim>\<open>-o\<close>; every other field, and each
  of these three without its flag, is the default's. The return code recorded for
  the call is the one the library gave.
\<close>

theorem initialize_config:
  assumes "Rc_mpu_initialize_dmp r \<in> set (trace (main posix dflt rc argv stdin schedule))"
  shows "r = rc \<and>
         initialize_arg (main posix dflt rc argv stdin schedule) =
           Some (spec_config dflt (parsed_options posix argv) (snd (orientation_prompt stdin))) \<and>
         rates (parsed_options posix argv) \<noteq> [] \<and>
         (CHR ''o'' \<in> set (flags (parsed_options posix argv)) \<longrightarrow>
            \<not> isl (snd (orientation_prompt stdin)))"
proof -
  obtain tr h where hs: "head_spec posix dflt argv stdin = (tr, h)"
    by (cases "head_spec posix dflt argv stdin")
  from head_spec_front[of posix dflt argv stdin] hs
  have front: "\<forall>e\<in>set tr. is_front e" by simp
  show ?thesis
  proof (cases h)
    case (Inl out)
    with hs have "head_spec posix dflt argv stdin = (tr, Inl out)" by simp
    from main_Inl[OF this, of rc schedule] assms
    have "Rc_mpu_initialize_dmp r \<in> set tr" by simp
    with front have "is_front (Rc_mpu_initialize_dmp r)" by blast
    then show ?thesis by simp
  next
    case (Inr c)
    with hs have hs': "head_spec posix dflt argv stdin = (tr, Inr c)" by simp
    from main_Inr_inv[OF hs', of rc schedule] obtain n where
      tr: "trace (main posix dflt rc argv stdin schedule) =
             tr @ tail_events rc n (pc (main posix dflt rc argv stdin schedule))"
      and arg: "initialize_arg (main posix dflt rc argv stdin schedule) =
             (if before_init (pc (main posix dflt rc argv stdin schedule)) then None else Some c)"
      unfolding tail_inv_def by blast
    from assms tr front
    have "Rc_mpu_initialize_dmp r \<in>
            set (tail_events rc n (pc (main posix dflt rc argv stdin schedule)))"
      by auto
    from tail_events_initialize[OF this] arg head_spec_Inr[OF hs']
    show ?thesis by (simp add: command_line_accepted_def)
  qed
qed

theorem initialize_config_witness:
  "Rc_mpu_initialize_dmp 0 \<in> set (trace (main False example_config 0
     [''print_data'', ''-r'', ''50'', ''-m'', ''x'', ''-o''] ''3'' [Main_step, Main_step, Main_step])) \<and>
   initialize_arg (main False example_config 0
     [''print_data'', ''-r'', ''50'', ''-m'', ''x'', ''-o''] ''3'' [Main_step, Main_step, Main_step]) =
     Some \<lparr>gpio_interrupt_pin_chip = 3, gpio_interrupt_pin = 21, i2c_bus = 2,
           enable_magnetometer = 1, dmp_sample_rate = 50, orient = ORIENTATION_X_UP\<rparr>"
proof -
  have called: "Rc_mpu_initialize_dmp 0 \<in> set (trace (main False example_config 0
     [''print_data'', ''-r'', ''50'', ''-m'', ''x'', ''-o''] ''3'' [Main_step, Main_step, Main_step]))"
    by code_simp
  have opts: "parsed_options False [''print_data'', ''-r'', ''50'', ''-m'', ''x'', ''-o''] =
     [(CHR ''r'', Some ''50''), (CHR ''m'', Some ''x''), (CHR ''o'', None)]"
    by code_simp
  have choice: "snd (orientation_prompt ''3'') = Inr ORIENTATION_X_UP"
    by code_simp
  have rate: "atoi ''50'' = 50"
    by code_simp
  from initialize_config [OF called] called show ?thesis
    by (simp add: spec_config_def opts choice rate example_config_def)
qed


subsection \<open>When \<^verbatim>\<open>main\<close> returns -1\<close>

lemma tail_invD:
  assumes "tail_inv tr0 c rc s"
  shows "\<exists>n. trace s = tr0 @ tail_events rc n (pc s)"
    and "handler_installed s = (pc s \<noteq> At_signal \<and> pc s \<noteq> Halted Killed_by_SIGINT)"
    and "initialize_arg s = (if before_init (pc s) then None else Some c)"
    and "pc s = At_signal \<or> pc s = At_set_running \<or> pc s = Halted Killed_by_SIGINT \<or>
           after_loop (pc s) \<longrightarrow> running s = 0"
    and "init_failed (pc s) \<longrightarrow> rc \<noteq> 0"
    and "pc s = At_header \<or> pc s = At_set_callback \<or> in_loop (pc s) \<or> after_loop (pc s)
           \<longrightarrow> rc = 0"
    and "\<forall>out. pc s = Halted out \<longrightarrow>
           out = Returned 0 \<or> out = Returned (- 1) \<or> out = Killed_by_SIGINT"
  using assms unfolding tail_inv_def by blast+

lemma head_spec_accepted:
  assumes "command_line_accepted posix argv"
  shows "head_spec posix dflt argv stdin =
     (getopt_calls (parsed_options posix argv) @ prompt_events (parsed_options posix argv) stdin,
      if prompt_quits (parsed_options posix argv) stdin then Inl (Exited 0)
      else Inr (spec_config dflt (parsed_options posix argv) (snd (orientation_prompt stdin))))"
proof -
  from assms have dw: "dropWhile accepted (parsed_options posix argv) = []"
    and rt: "rates (parsed_options posix argv) \<noteq> []"
    by (simp_all add: command_line_accepted_def list_all_iff)
  obtain tr2 r where p: "orientation_prompt stdin = (tr2, r)"
    by (cases "orientation_prompt stdin")
  show ?thesis
  proof (cases r)
    case (Inl out)
    with p orientation_prompt_Inl[of stdin out] have "out = Exited 0" by simp
    with Inl p show ?thesis
      by (simp add: head_spec_def Let_def dw rt prompt_events_def prompt_quits_def
          del: dropWhile_eq_Nil_conv)
  next
    case (Inr x)
    with p show ?thesis
      by (simp add: head_spec_def Let_def dw rt prompt_events_def prompt_quits_def
          del: dropWhile_eq_Nil_conv)
  qed
qed

lemma main_rejected:
  assumes "\<not> command_line_accepted posix argv"
  shows "pc (main posix dflt rc argv stdin schedule) = Halted (Returned (- 1)) \<and>
         initialize_arg (main posix dflt rc argv stdin schedule) = None \<and>
         list_all is_front (trace (main posix dflt rc argv stdin schedule))"
proof -
  obtain tr where hs: "head_spec posix dflt argv stdin = (tr, Inl (Returned (- 1)))"
    using head_spec_rejected[OF assms, of dflt stdin]
    by (cases "head_spec posix dflt argv stdin") simp
  from head_spec_front[of posix dflt argv stdin] hs have "list_all is_front tr"
    by (simp add: list_all_iff)
  then show ?thesis by (simp add: main_Inl[OF hs])
qed






subsection \<open>The check of the sample rate\<close>

lemma filter_printf_getopt_calls: "filter is_printf (getopt_calls opts) = []"
  by (induction opts) (simp_all add: getopt_calls_def)

lemma filter_printf_getopts: "filter is_printf (map (\<lambda>r. Getopt (Some r)) opts) = []"
  by (induction opts) simp_all

lemma filter_printf_usage: "filter is_printf print_usage = print_usage"
  by (simp add: print_usage_def)

lemma getopt_results_cases:
  "(c, oa) \<in> set (getopt_results posix ''r:m:ho'' d) \<Longrightarrow>
     (c = CHR ''r'' \<and> oa \<noteq> None) \<or> (c = CHR ''m'' \<and> oa \<noteq> None) \<or>
     (c = CHR ''o'' \<and> oa = None) \<or> (c = CHR ''h'' \<and> oa = None) \<or>
     (c = CHR ''?'' \<and> oa = None)"
proof (induction "getopt_size d" arbitrary: d rule: less_induct)
  case less
  show ?case
  proof (cases "getopt posix ''r:m:ho'' d")
    case (Pair r d')
    show ?thesis
    proof (cases r)
      case None
      with Pair less.prems show ?thesis
        by (subst (asm) getopt_results.simps) simp
    next
      case (Some opt)
      with Pair have "getopt_size d' < getopt_size d"
        by (simp add: getopt_size_decreases)
      note ih = less.hyps[OF this]
      from less.prems Pair Some
      have "(c, oa) = opt \<or> (c, oa) \<in> set (getopt_results posix ''r:m:ho'' d')"
        by (subst (asm) getopt_results.simps) auto
      then show ?thesis
      proof
        assume "(c, oa) = opt"
        with Pair Some getopt_rmho_cases[of posix d c oa d'] show ?thesis by simp
      next
        assume "(c, oa) \<in> set (getopt_results posix ''r:m:ho'' d')"
        then show ?thesis by (rule ih)
      qed
    qed
  qed
qed

lemma rates_Nil_iff:
  assumes "\<forall>opt\<in>set opts. fst opt = CHR ''r'' \<longrightarrow> snd opt \<noteq> None"
  shows "rates opts = [] \<longleftrightarrow> CHR ''r'' \<notin> set (flags opts)"
  using assms
proof (induction opts)
  case Nil
  show ?case by simp
next
  case (Cons opt opts)
  obtain c oa where opt: "opt = (c, oa)" by (cases opt)
  with Cons show ?case by (cases oa) auto
qed

lemma rates_parsed_Nil_iff:
  "rates (parsed_options posix argv) = [] \<longleftrightarrow> CHR ''r'' \<notin> set (flags (parsed_options posix argv))"
proof (rule rates_Nil_iff, rule ballI, rule impI)
  fix opt assume a: "opt \<in> set (parsed_options posix argv)" "fst opt = CHR ''r''"
  obtain c oa where opt: "opt = (c, oa)" by (cases opt)
  with a getopt_results_cases[of c oa posix "initial_getopt argv"]
  show "snd opt \<noteq> None"
    by (simp add: parsed_options_def)
qed

lemma accepted_rates:
  "list_all accepted opts \<Longrightarrow> \<forall>x\<in>set (rates opts). 4 \<le> x \<and> x \<le> 200"
proof (induction opts)
  case Nil
  show ?case by simp
next
  case (Cons opt opts)
  obtain c oa where opt: "opt = (c, oa)" by (cases opt)
  with Cons show ?case by (cases oa) (auto simp: accepted_def)
qed

lemma accepted_valid_rates:
  assumes "command_line_accepted posix argv"
  shows "valid_rates (parsed_options posix argv) \<noteq> []"
    and "\<forall>x\<in>set (rates (parsed_options posix argv)). 4 \<le> x \<and> x \<le> 200"
proof -
  from assms have *: "list_all accepted (parsed_options posix argv)"
    and **: "rates (parsed_options posix argv) \<noteq> []"
    by (simp_all add: command_line_accepted_def)
  from accepted_rates[OF *]
  show "\<forall>x\<in>set (rates (parsed_options posix argv)). 4 \<le> x \<and> x \<le> 200" .
  then have "valid_rates (parsed_options posix argv) = rates (parsed_options posix argv)"
    by (simp add: valid_rates_def)
  with ** show "valid_rates (parsed_options posix argv) \<noteq> []" by simp
qed

lemma parsed_options_single_r:
  "parsed_options posix [prog, ''-r'', a] = [(CHR ''r'', Some a)]"
proof -
  have 1: "getopt posix ''r:m:ho'' \<lparr>nextchar = [], args_left = [''-r'', a]\<rparr> =
             (Some (CHR ''r'', Some a), \<lparr>nextchar = [], args_left = []\<rparr>)"
    by (simp add: getopt_def NONOPTION_P_def short_option_rmho)
  have 2: "getopt posix ''r:m:ho'' \<lparr>nextchar = [], args_left = []\<rparr> =
             (None, \<lparr>nextchar = [], args_left = []\<rparr>)"
    by (simp add: getopt_def)
  show ?thesis
    unfolding parsed_options_def initial_getopt_def
    by (subst getopt_results.simps, simp add: 1, subst getopt_results.simps, simp add: 2)
qed

lemma loop_iteration_show_something:
  assumes "loop_iteration posix argc v d = (tr, Continue v' d')"
  shows "show_something v' =
     (case fst (getopt posix ''r:m:ho'' d) of
        Some (c, oa) \<Rightarrow> if c = CHR ''r'' then 1 else show_something v
      | None \<Rightarrow> show_something v)"
proof (cases "getopt posix ''r:m:ho'' d")
  case (Pair r d1)
  show ?thesis
  proof (cases r)
    case None
    with Pair assms show ?thesis by (simp add: loop_iteration_def)
  next
    case (Some opt)
    obtain c oa where opt: "opt = (c, oa)" by (cases opt)
    from Pair Some opt assms show ?thesis
      by (cases oa) (auto simp: loop_iteration_def Let_def split: if_splits)
  qed
qed

lemma rejected_not_rate:
  assumes "fst bad \<noteq> CHR ''r''"
    and "dropWhile accepted (parsed_options posix argv) = bad # rest"
  shows "rejection bad = print_usage \<or>
         rejection bad =
           Printf ''opt: %c\<newline>'' [63] # Printf ''invalid argument\<newline>'' [] # print_usage"
proof -
  obtain c oa where bad: "bad = (c, oa)" by (cases bad)
  from assms(2) have "bad \<in> set (parsed_options posix argv)"
    by (metis list.set_intros(1) set_dropWhileD)
  with assms(1) bad have nr: "c \<noteq> CHR ''r''" and mem: "(c, oa) \<in> set (parsed_options posix argv)"
    by simp_all
  from assms(2) have "\<not> accepted bad"
    by (metis hd_dropWhile list.sel(1) list.distinct(1))
  with bad nr have "c \<noteq> CHR ''m''" "c \<noteq> CHR ''o''"
    by (auto simp: accepted_def)
  with nr getopt_results_cases[of c oa posix "initial_getopt argv"] mem
  have "c = CHR ''h'' \<or> c = CHR ''?''"
    by (auto simp: parsed_options_def)
  with bad show ?thesis by (auto simp: rejection_def)
qed

lemma rejected_not_r:
  assumes "CHR ''r'' \<notin> set (flags (parsed_options posix argv))"
    and "dropWhile accepted (parsed_options posix argv) = bad # rest"
  shows "rejection bad = print_usage \<or>
         rejection bad =
           Printf ''opt: %c\<newline>'' [63] # Printf ''invalid argument\<newline>'' [] # print_usage"
proof -
  from assms(2) have "bad \<in> set (parsed_options posix argv)"
    by (metis list.set_intros(1) set_dropWhileD)
  with assms(1) have "fst bad \<noteq> CHR ''r''"
    by (force simp: flags_def)
  then show ?thesis using assms(2) by (rule rejected_not_rate)
qed

lemma main_stopped:
  assumes "dropWhile accepted (parsed_options posix argv) = bad # rest"
  shows "main posix dflt rc argv stdin schedule =
           \<lparr>pc = Halted (Returned (- 1)), running = 0, handler_installed = False,
            initialize_arg = None,
            trace = map (\<lambda>r. Getopt (Some r)) (takeWhile accepted (parsed_options posix argv)) @
                    Getopt (Some bad) # rejection bad\<rparr>"
proof -
  from assms have "head_spec posix dflt argv stdin =
    (map (\<lambda>r. Getopt (Some r)) (takeWhile accepted (parsed_options posix argv)) @
       Getopt (Some bad) # rejection bad,
     Inl (Returned (- 1)))"
    by (simp add: head_spec_def Let_def)
  then show ?thesis by (rule main_Inl)
qed

text \<open>
  C6, as the code has it. Whenever one of the rates given with \<^verbatim>\<open>-r\<close> is below 4 or
  above 200, \<^verbatim>\<open>main\<close> returns -1 and has called nothing but \<^verbatim>\<open>getopt\<close>, \<^verbatim>\<open>printf\<close> and
  \<^verbatim>\<open>getchar\<close>.
  A command line of a single \<^verbatim>\<open>-r\<close> with any rate from 4 to 200, divisor of 200 or
  not, is accepted: the initialisation is called with that rate. Without a rate in
  range \<^verbatim>\<open>main\<close> returns -1 before the initialisation whatever else is on the
  command line, and without any \<^verbatim>\<open>-r\<close> what it prints is the usage message (alone,
  or followed by the request for an option, or preceded by the two lines about an
  invalid argument). In the loop only \<^verbatim>\<open>-r\<close> changes \<^verbatim>\<open>show_something\<close>. When the first
  option that is not accepted is a \<^verbatim>\<open>-r\<close>, on any command line, \<^verbatim>\<open>main\<close> returns -1 and
  all it prints is the message about the range; in every other case without a rate
  in range it prints the usage message, in one of its three ways. The message about
  the range is none of them.
\<close>

theorem sample_rate_check:
  assumes s: "s = main posix dflt rc argv stdin schedule"
    and opts: "opts = parsed_options posix argv"
  shows "(x \<in> set (rates opts) \<and> (x < 4 \<or> 200 < x) \<longrightarrow>
            pc s = Halted (Returned (- 1)) \<and> initialize_arg s = None \<and>
            list_all is_front (trace s)) \<and>
         (4 \<le> atoi a \<and> atoi a \<le> 200 \<longrightarrow>
            initialize_arg (main posix dflt rc [prog, ''-r'', a] stdin
                              [Main_step, Main_step, Main_step]) =
              Some (dflt\<lparr>i2c_bus := 2, gpio_interrupt_pin_chip := 3, gpio_interrupt_pin := 21,
                         dmp_sample_rate := atoi a\<rparr>)) \<and>
         (valid_rates opts = [] \<longrightarrow>
            pc s = Halted (Returned (- 1)) \<and> initialize_arg s = None \<and>
            list_all is_front (trace s)) \<and>
         (CHR ''r'' \<notin> set (flags opts) \<longrightarrow> filter is_printf (trace s) \<in> set usage_outputs) \<and>
         (loop_iteration posix argc v d = (tr, Continue v' d') \<longrightarrow>
            show_something v' =
              (case fst (getopt posix ''r:m:ho'' d) of
                 Some (c, oa) \<Rightarrow> if c = CHR ''r'' then 1 else show_something v
               | None \<Rightarrow> show_something v)) \<and>
         (stops_at_rate opts \<longrightarrow>
            pc s = Halted (Returned (- 1)) \<and> initialize_arg s = None \<and>
            filter is_printf (trace s) = range_message) \<and>
         (valid_rates opts = [] \<and> \<not> stops_at_rate opts \<longrightarrow>
            filter is_printf (trace s) \<in> set usage_outputs) \<and>
         range_message \<notin> set usage_outputs"
proof -
  note rejected = main_rejected[of posix argv dflt rc stdin schedule, folded s]
  have 1: "x \<in> set (rates opts) \<and> (x < 4 \<or> 200 < x) \<longrightarrow>
            pc s = Halted (Returned (- 1)) \<and> initialize_arg s = None \<and>
            list_all is_front (trace s)"
  proof
    assume a: "x \<in> set (rates opts) \<and> (x < 4 \<or> 200 < x)"
    then have "\<not> command_line_accepted posix argv"
      using accepted_valid_rates(2)[of posix argv] opts by fastforce
    then show "pc s = Halted (Returned (- 1)) \<and> initialize_arg s = None \<and>
            list_all is_front (trace s)" by (rule rejected)
  qed
  have 2: "4 \<le> atoi a \<and> atoi a \<le> 200 \<longrightarrow>
            initialize_arg (main posix dflt rc [prog, ''-r'', a] stdin
                              [Main_step, Main_step, Main_step]) =
              Some (dflt\<lparr>i2c_bus := 2, gpio_interrupt_pin_chip := 3, gpio_interrupt_pin := 21,
                         dmp_sample_rate := atoi a\<rparr>)"
  proof
    assume r: "4 \<le> atoi a \<and> atoi a \<le> 200"
    then have acc: "command_line_accepted posix [prog, ''-r'', a]"
      by (simp add: command_line_accepted_def parsed_options_single_r accepted_def)
    have "head_spec posix dflt [prog, ''-r'', a] stdin =
            ([Getopt (Some (CHR ''r'', Some a)), Getopt None],
             Inr (dflt\<lparr>i2c_bus := 2, gpio_interrupt_pin_chip := 3, gpio_interrupt_pin := 21,
                       dmp_sample_rate := atoi a\<rparr>))"
      by (simp add: head_spec_accepted[OF acc] parsed_options_single_r getopt_calls_def
          prompt_events_def prompt_quits_def spec_config_def split: sum.split)
    from main_Inr[OF this, of rc "[Main_step, Main_step, Main_step]"]
    show "initialize_arg (main posix dflt rc [prog, ''-r'', a] stdin
                              [Main_step, Main_step, Main_step]) =
              Some (dflt\<lparr>i2c_bus := 2, gpio_interrupt_pin_chip := 3, gpio_interrupt_pin := 21,
                         dmp_sample_rate := atoi a\<rparr>)"
      by (simp add: perform_def main_step_def)
  qed
  have 3: "valid_rates opts = [] \<longrightarrow>
            pc s = Halted (Returned (- 1)) \<and> initialize_arg s = None \<and>
            list_all is_front (trace s)"
  proof
    assume "valid_rates opts = []"
    then have "\<not> command_line_accepted posix argv"
      using accepted_valid_rates(1)[of posix argv] opts by fastforce
    then show "pc s = Halted (Returned (- 1)) \<and> initialize_arg s = None \<and>
            list_all is_front (trace s)" by (rule rejected)
  qed
  have 4: "CHR ''r'' \<notin> set (flags opts) \<longrightarrow> filter is_printf (trace s) \<in> set usage_outputs"
  proof
    assume nr: "CHR ''r'' \<notin> set (flags opts)"
    then have rt: "rates (parsed_options posix argv) = []"
      by (simp add: rates_parsed_Nil_iff opts)
    show "filter is_printf (trace s) \<in> set usage_outputs"
    proof (cases "dropWhile accepted (parsed_options posix argv)")
      case Nil
      then have "head_spec posix dflt argv stdin =
        (getopt_calls (parsed_options posix argv) @ print_usage @
           [Printf ''please enable an option to print some data\<newline>'' []],
         Inl (Returned (- 1)))"
        by (simp add: head_spec_def Let_def rt del: dropWhile_eq_Nil_conv)
      from main_Inl[OF this, of rc schedule] show ?thesis
        by (simp add: s filter_printf_getopt_calls filter_printf_usage usage_outputs_def)
    next
      case (Cons bad rest)
      then have "head_spec posix dflt argv stdin =
        (map (\<lambda>r. Getopt (Some r)) (takeWhile accepted (parsed_options posix argv)) @
           Getopt (Some bad) # rejection bad,
         Inl (Returned (- 1)))"
        by (simp add: head_spec_def Let_def)
      from main_Inl[OF this, of rc schedule]
      have "filter is_printf (trace s) = filter is_printf (rejection bad)"
        by (simp add: s filter_printf_getopts)
      with rejected_not_r[OF nr[unfolded opts] Cons] show ?thesis
        by (auto simp: filter_printf_usage usage_outputs_def)
    qed
  qed
  note 5 = loop_iteration_show_something[of posix argc v d tr v' d']
  have 6: "stops_at_rate opts \<longrightarrow>
            pc s = Halted (Returned (- 1)) \<and> initialize_arg s = None \<and>
            filter is_printf (trace s) = range_message"
  proof
    assume st: "stops_at_rate opts"
    then obtain bad rest where
      dw: "dropWhile accepted (parsed_options posix argv) = bad # rest" and r: "fst bad = CHR ''r''"
      by (auto simp: stops_at_rate_def opts split: list.splits)
    from r show "pc s = Halted (Returned (- 1)) \<and> initialize_arg s = None \<and>
            filter is_printf (trace s) = range_message"
      by (simp add: s main_stopped[OF dw] filter_printf_getopts rejection_def range_message_def)
  qed
  have 7: "valid_rates opts = [] \<and> \<not> stops_at_rate opts \<longrightarrow>
            filter is_printf (trace s) \<in> set usage_outputs"
  proof
    assume a: "valid_rates opts = [] \<and> \<not> stops_at_rate opts"
    show "filter is_printf (trace s) \<in> set usage_outputs"
    proof (cases "dropWhile accepted (parsed_options posix argv)")
      case Nil
      then have all: "list_all accepted (parsed_options posix argv)"
        by (simp add: list_all_iff)
      from accepted_rates[OF all] have "valid_rates opts = rates opts"
        by (simp add: valid_rates_def opts)
      with a have rt: "rates (parsed_options posix argv) = []"
        by (simp add: opts)
      from Nil have "head_spec posix dflt argv stdin =
        (getopt_calls (parsed_options posix argv) @ print_usage @
           [Printf ''please enable an option to print some data\<newline>'' []],
         Inl (Returned (- 1)))"
        by (simp add: head_spec_def Let_def rt del: dropWhile_eq_Nil_conv)
      from main_Inl[OF this, of rc schedule] show ?thesis
        by (simp add: s filter_printf_getopt_calls filter_printf_usage usage_outputs_def)
    next
      case (Cons bad rest)
      with a have nr: "fst bad \<noteq> CHR ''r''"
        by (simp add: stops_at_rate_def opts)
      have "filter is_printf (trace s) = filter is_printf (rejection bad)"
        by (simp add: s main_stopped[OF Cons] filter_printf_getopts)
      with rejected_not_rate[OF nr Cons] show ?thesis
        by (auto simp: filter_printf_usage usage_outputs_def)
    qed
  qed
  have 8: "range_message \<notin> set usage_outputs"
    by (simp add: range_message_def usage_outputs_def print_usage_def)
  from 1 2 3 4 5 6 7 8 show ?thesis by blast
qed

theorem sample_rate_check_witness:
  "300 \<in> set (rates (parsed_options False [''print_data'', ''-r'', ''300''])) \<and>
   pc (main False example_config 0 [''print_data'', ''-r'', ''300''] [] [Main_step]) =
     Halted (Returned (- 1)) \<and>
   atoi ''7'' = 7 \<and> \<not> (7 :: int) dvd 200 \<and>
   initialize_arg (main False example_config 0 [''print_data'', ''-r'', ''7''] []
                     [Main_step, Main_step, Main_step]) =
     Some \<lparr>gpio_interrupt_pin_chip = 3, gpio_interrupt_pin = 21, i2c_bus = 2,
           enable_magnetometer = 0, dmp_sample_rate = 7, orient = ORIENTATION_Z_UP\<rparr> \<and>
   valid_rates (parsed_options False [''print_data'', ''-m'', ''x'', ''-o'']) = [] \<and>
   pc (main False example_config 0 [''print_data'', ''-m'', ''x'', ''-o''] [] [Main_step]) =
     Halted (Returned (- 1)) \<and>
   filter is_printf
     (trace (main False example_config 0 [''print_data'', ''-m'', ''x'', ''-o''] [] [Main_step]))
     \<in> set usage_outputs \<and>
   stops_at_rate (parsed_options False [''print_data'', ''-m'', ''x'', ''-r'', ''300'', ''-h'']) \<and>
   filter is_printf
     (trace (main False example_config 0 [''print_data'', ''-m'', ''x'', ''-r'', ''300'', ''-h'']
               [] [Main_step])) =
     [Printf ''sample_rate must be between 4 & 200'' []] \<and>
   valid_rates (parsed_options False [''print_data'', ''-h'', ''-r'', ''300'']) = [] \<and>
   \<not> stops_at_rate (parsed_options False [''print_data'', ''-h'', ''-r'', ''300'']) \<and>
   filter is_printf
     (trace (main False example_config 0 [''print_data'', ''-h'', ''-r'', ''300''] [] [Main_step]))
     \<in> set usage_outputs"
proof -
  have r300: "300 \<in> set (rates (parsed_options False [''print_data'', ''-r'', ''300'']))"
    by code_simp
  have a7: "atoi ''7'' = 7"
    by code_simp
  have none: "valid_rates (parsed_options False [''print_data'', ''-m'', ''x'', ''-o'']) = []"
    by code_simp
  have nor: "CHR ''r'' \<notin> set (flags (parsed_options False [''print_data'', ''-m'', ''x'', ''-o'']))"
    by code_simp
  note t1 = sample_rate_check [OF refl refl, where posix = False and dflt = example_config
      and rc = 0 and argv = "[''print_data'', ''-r'', ''300'']" and stdin = "[]"
      and schedule = "[Main_step]" and x = 300 and a = "''7''" and prog = "''print_data''"]
  note t2 = sample_rate_check [OF refl refl, where posix = False and dflt = example_config
      and rc = 0 and argv = "[''print_data'', ''-m'', ''x'', ''-o'']" and stdin = "[]"
      and schedule = "[Main_step]" and x = 300 and a = "''7''" and prog = "''print_data''"]
  from t1 [THEN conjunct1, rule_format] r300
  have p1: "pc (main False example_config 0 [''print_data'', ''-r'', ''300''] [] [Main_step]) =
     Halted (Returned (- 1))"
    by simp
  from t1 [THEN conjunct2, THEN conjunct1, rule_format] a7
  have p2: "initialize_arg (main False example_config 0 [''print_data'', ''-r'', ''7''] []
                     [Main_step, Main_step, Main_step]) =
     Some (example_config\<lparr>i2c_bus := 2, gpio_interrupt_pin_chip := 3,
             gpio_interrupt_pin := 21, dmp_sample_rate := 7\<rparr>)"
    by simp
  from t2 [THEN conjunct2, THEN conjunct2, THEN conjunct1, rule_format] none
  have p3: "pc (main False example_config 0 [''print_data'', ''-m'', ''x'', ''-o''] []
                  [Main_step]) = Halted (Returned (- 1))"
    by simp
  from t2 [THEN conjunct2, THEN conjunct2, THEN conjunct2, THEN conjunct1, rule_format] nor
  have p4: "filter is_printf
     (trace (main False example_config 0 [''print_data'', ''-m'', ''x'', ''-o''] [] [Main_step]))
     \<in> set usage_outputs"
    by simp
  have stops: "stops_at_rate
      (parsed_options False [''print_data'', ''-m'', ''x'', ''-r'', ''300'', ''-h''])"
    by code_simp
  have usage: "valid_rates (parsed_options False [''print_data'', ''-h'', ''-r'', ''300'']) = [] \<and>
      \<not> stops_at_rate (parsed_options False [''print_data'', ''-h'', ''-r'', ''300''])"
    by code_simp
  note t3 = sample_rate_check [OF refl refl, where posix = False and dflt = example_config
      and rc = 0 and argv = "[''print_data'', ''-m'', ''x'', ''-r'', ''300'', ''-h'']"
      and stdin = "[]" and schedule = "[Main_step]"]
  note t4 = sample_rate_check [OF refl refl, where posix = False and dflt = example_config
      and rc = 0 and argv = "[''print_data'', ''-h'', ''-r'', ''300'']"
      and stdin = "[]" and schedule = "[Main_step]"]
  from t3 [THEN conjunct2, THEN conjunct2, THEN conjunct2, THEN conjunct2, THEN conjunct2,
      THEN conjunct1, rule_format, OF stops]
  have p5: "filter is_printf
     (trace (main False example_config 0 [''print_data'', ''-m'', ''x'', ''-r'', ''300'', ''-h'']
               [] [Main_step])) =
     [Printf ''sample_rate must be between 4 & 200'' []]"
    by (simp add: range_message_def)
  from t4 [THEN conjunct2, THEN conjunct2, THEN conjunct2, THEN conjunct2, THEN conjunct2,
      THEN conjunct2, THEN conjunct1, rule_format, OF usage]
  have p6: "filter is_printf
     (trace (main False example_config 0 [''print_data'', ''-h'', ''-r'', ''300''] [] [Main_step]))
     \<in> set usage_outputs" .
  from r300 a7 none p1 p2 p3 p4 stops usage p5 p6 show ?thesis
    by (simp add: example_config_def)
qed

text \<open>
  C6 as it is written fails where it says that every invocation without a valid
  \<^verbatim>\<open>-r\<close> prints the usage message: with the rate 300 \<^verbatim>\<open>main\<close> prints the message about
  the range and nothing else.
\<close>

theorem sample_rate_check_counterexample:
  "valid_rates (parsed_options False [''print_data'', ''-r'', ''300'']) = [] \<and>
   pc (main False example_config 0 [''print_data'', ''-r'', ''300''] [] []) =
     Halted (Returned (- 1)) \<and>
   trace (main False example_config 0 [''print_data'', ''-r'', ''300''] [] []) =
     [Getopt (Some (CHR ''r'', Some ''300'')),
      Printf ''sample_rate must be between 4 & 200'' []] \<and>
   filter is_printf (trace (main False example_config 0 [''print_data'', ''-r'', ''300''] [] []))
     \<notin> set usage_outputs"
  by code_simp


subsection \<open>\<^verbatim>\<open>-m\<close> as the last word of the command line\<close>

lemma loop_reaches_parse_options:
  assumes "loop_reaches posix argc v d tr v' d'"
  shows "parse_options posix argc v d =
           (tr @ fst (parse_options posix argc v' d'), snd (parse_options posix argc v' d'))"
  using assms
proof (induction rule: loop_reaches.induct)
  case (start v d)
  show ?case by simp
next
  case (iterate v d tr v1 d1 tr' v2 d2)
  then show ?case
    by (subst parse_options.simps) (simp add: split_beta)
qed

lemma loop_reaches_argc:
  assumes "loop_reaches posix argc v d tr v' d'"
  shows "(v' = v \<and> d' = d \<and> tr = []) \<or> 1 < argc"
  using assms
proof (induction rule: loop_reaches.induct)
  case (start v d)
  show ?case by simp
next
  case (iterate v d tr v1 d1 tr' v2 d2)
  from iterate.hyps(1) have "1 < argc"
    by (auto simp: loop_iteration_def Let_def split: prod.splits option.splits if_splits)
  then show ?case by simp
qed

lemma getopt_final_m:
  assumes "list_all NONOPTION_P ns" and "posix \<longrightarrow> ns = []"
  shows "getopt posix ''r:m:ho'' \<lparr>nextchar = [], args_left = ns @ [''-m'']\<rparr> =
           (Some (CHR ''?'', None), \<lparr>nextchar = [], args_left = []\<rparr>)"
proof -
  from assms(1) have "dropWhile NONOPTION_P (ns @ [''-m'']) = [''-m'']"
    by (induction ns) (simp_all add: NONOPTION_P_def)
  with assms(2) show ?thesis
    by (cases posix) (simp_all add: getopt_def NONOPTION_P_def short_option_rmho)
qed

lemma loop_iteration_final_m:
  assumes "1 < argc" and "list_all NONOPTION_P ns" and "posix \<longrightarrow> ns = []"
  shows "loop_iteration posix argc v \<lparr>nextchar = [], args_left = ns @ [''-m'']\<rparr> =
           (missing_argument_events, Return_in_loop (Returned (- 1)))"
  using assms(1)
  by (simp add: loop_iteration_def getopt_final_m[OF assms(2,3)] missing_argument_events_def)

text \<open>
  C7, as the code has it. When the option loop arrives at a last word \<^verbatim>\<open>-m\<close> of the
  command line (with nothing between but words that are not options, which the GNU
  \<^verbatim>\<open>getopt\<close> skips), \<^verbatim>\<open>getopt\<close> returns \<^verbatim>\<open>?\<close> for the missing argument, and \<^verbatim>\<open>main\<close> prints
  the character, the line about an invalid argument and the usage message, and
  returns -1; the initialisation is not called.
\<close>

theorem final_m_missing_argument:
  assumes reach: "loop_reaches posix (length argv) (initial_vars dflt) (initial_getopt argv) tr v
                    \<lparr>nextchar = [], args_left = ns @ [''-m'']\<rparr>"
    and ns: "list_all NONOPTION_P ns" "posix \<longrightarrow> ns = []"
  shows "main posix dflt rc argv stdin schedule =
           \<lparr>pc = Halted (Returned (- 1)), running = 0, handler_installed = False,
            initialize_arg = None, trace = tr @ missing_argument_events\<rparr> \<and>
         stdout_of missing_argument_events =
           ''opt: ?\<newline>invalid argument\<newline>'' @ stdout_of print_usage"
proof -
  have argc: "1 < length argv"
  proof (rule ccontr)
    assume "\<not> 1 < length argv"
    with loop_reaches_argc[OF reach]
    have "initial_getopt argv = \<lparr>nextchar = [], args_left = ns @ [''-m'']\<rparr>" by simp
    then have "tl argv \<noteq> []" by (simp add: initial_getopt_def)
    then have "1 < length argv" by (cases argv) auto
    with \<open>\<not> 1 < length argv\<close> show False by simp
  qed
  have "parse_options posix (length argv) v \<lparr>nextchar = [], args_left = ns @ [''-m'']\<rparr> =
          (missing_argument_events, Inl (Returned (- 1)))"
    by (subst parse_options.simps) (simp add: loop_iteration_final_m[OF argc ns])
  with loop_reaches_parse_options[OF reach]
  have "parse_options posix (length argv) (initial_vars dflt) (initial_getopt argv) =
          (tr @ missing_argument_events, Inl (Returned (- 1)))"
    by simp
  then have "main posix dflt rc argv stdin schedule =
           \<lparr>pc = Halted (Returned (- 1)), running = 0, handler_installed = False,
            initialize_arg = None, trace = tr @ missing_argument_events\<rparr>"
    by (simp add: main_def main_head_def)
  moreover have "stdout_of missing_argument_events =
           ''opt: ?\<newline>invalid argument\<newline>'' @ stdout_of print_usage"
    by code_simp
  ultimately show ?thesis by simp
qed

theorem final_m_missing_argument_witness:
  "loop_reaches False (length [''print_data'', ''-r'', ''100'', ''-m''])
     (initial_vars example_config) (initial_getopt [''print_data'', ''-r'', ''100'', ''-m''])
     [Getopt (Some (CHR ''r'', Some ''100''))]
     (apply_option (initial_vars example_config) (CHR ''r'', Some ''100''))
     \<lparr>nextchar = [], args_left = [''-m'']\<rparr> \<and>
   main False example_config 0 [''print_data'', ''-r'', ''100'', ''-m''] [] [Main_step] =
     \<lparr>pc = Halted (Returned (- 1)), running = 0, handler_installed = False,
      initialize_arg = None,
      trace = [Getopt (Some (CHR ''r'', Some ''100''))] @ missing_argument_events\<rparr>"
proof -
  have it: "loop_iteration False (length [''print_data'', ''-r'', ''100'', ''-m''])
     (initial_vars example_config) (initial_getopt [''print_data'', ''-r'', ''100'', ''-m'']) =
     ([Getopt (Some (CHR ''r'', Some ''100''))],
      Continue (apply_option (initial_vars example_config) (CHR ''r'', Some ''100''))
        \<lparr>nextchar = [], args_left = [''-m'']\<rparr>)"
    by code_simp
  have reach: "loop_reaches False (length [''print_data'', ''-r'', ''100'', ''-m''])
     (initial_vars example_config) (initial_getopt [''print_data'', ''-r'', ''100'', ''-m''])
     ([Getopt (Some (CHR ''r'', Some ''100''))] @ [])
     (apply_option (initial_vars example_config) (CHR ''r'', Some ''100''))
     \<lparr>nextchar = [], args_left = [] @ [''-m'']\<rparr>"
    using loop_reaches.iterate [OF it loop_reaches.start] by simp
  from final_m_missing_argument [OF reach, of 0 "[]" "[Main_step]"] reach
  show ?thesis by simp
qed

text \<open>
  C7 as it is written fails: a last word \<^verbatim>\<open>-m\<close> that follows another \<^verbatim>\<open>-m\<close> is the
  argument of that one, the command line is accepted, and the initialisation is
  called. And a last word \<^verbatim>\<open>-m\<close> that is an option with no argument is never looked at
  when an earlier option has made \<^verbatim>\<open>main\<close> return: after the rate 300 \<^verbatim>\<open>main\<close> prints
  the message about the range, and no usage message.
\<close>

theorem final_m_missing_argument_counterexample:
  "last [''print_data'', ''-r'', ''100'', ''-m'', ''-m''] = ''-m'' \<and>
   parsed_options False [''print_data'', ''-r'', ''100'', ''-m'', ''-m''] =
     [(CHR ''r'', Some ''100''), (CHR ''m'', Some ''-m'')] \<and>
   trace (main False example_config 0 [''print_data'', ''-r'', ''100'', ''-m'', ''-m''] []
            [Main_step, Main_step, Main_step]) =
     [Getopt (Some (CHR ''r'', Some ''100'')), Getopt (Some (CHR ''m'', Some ''-m'')),
      Getopt None, Signal_SIGINT, Rc_mpu_initialize_dmp 0] \<and>
   initialize_arg (main False example_config 0 [''print_data'', ''-r'', ''100'', ''-m'', ''-m''] []
            [Main_step, Main_step, Main_step]) =
     Some \<lparr>gpio_interrupt_pin_chip = 3, gpio_interrupt_pin = 21, i2c_bus = 2,
           enable_magnetometer = 1, dmp_sample_rate = 100, orient = ORIENTATION_Z_UP\<rparr> \<and>
   main False example_config 0 [''print_data'', ''-r'', ''300'', ''-m''] [] [] =
     \<lparr>pc = Halted (Returned (- 1)), running = 0, handler_installed = False,
      initialize_arg = None,
      trace = [Getopt (Some (CHR ''r'', Some ''300'')),
               Printf ''sample_rate must be between 4 & 200'' []]\<rparr>"
  by code_simp


subsection \<open>The order of the calls\<close>

lemma tail_events_callback:
  assumes "Rc_mpu_set_dmp_callback \<in> set (tail_events rc n p)"
  shows "in_loop p \<or> after_loop p"
  using assms by (cases p) (auto simp: print_header_def split: if_splits)

lemma tail_events_usleep:
  assumes "Rc_usleep t \<in> set (tail_events rc n p)"
  shows "in_loop p \<or> after_loop p"
  using assms by (cases p) (auto simp: print_header_def split: if_splits)

lemma tail_events_idle:
  assumes "in_loop p \<or> after_loop p"
  shows "\<exists>rest. tail_events rc n p = idle_events rc n @ rest"
  using assms by (cases p) (auto split: if_splits)

lemma precedes_idle:
  "precedes (Rc_mpu_initialize_dmp rc) Rc_mpu_set_dmp_callback (idle_events rc n @ rest)"
  "Rc_usleep t \<in> set (idle_events rc n @ rest) \<Longrightarrow>
     precedes Rc_mpu_set_dmp_callback (Rc_usleep t) (idle_events rc n @ rest)"
  by (simp_all add: precedes_def idle_events_def print_header_def)

lemma precedes_append:
  assumes "b \<notin> set tr" and "precedes a b tr'"
  shows "precedes a b (tr @ tr')"
  using assms by (induction tr) (auto simp: precedes_def)

lemma front_not_tail:
  assumes "\<forall>e\<in>set tr. is_front e"
  shows "Rc_mpu_set_dmp_callback \<notin> set tr" and "Rc_usleep t \<notin> set tr"
  using assms by auto

text \<open>
  C5. Whenever \<^verbatim>\<open>main\<close> is in the idle loop, the initialisation has returned 0 and the
  events so far are, in this order: the calls of \<^verbatim>\<open>getopt\<close> over the whole command
  line; the prompt, if there is a \<^verbatim>\<open>-o\<close>; the call of \<^verbatim>\<open>signal\<close>; the call of
  \<^verbatim>\<open>rc_mpu_initialize_dmp\<close> with the configuration of C1; the header; the call of
  \<^verbatim>\<open>rc_mpu_set_dmp_callback\<close>; and then nothing but sleeps. In every run the callback
  is set only after the initialisation has returned 0, and the first sleep comes
  only after the callback is set.
\<close>

theorem order_of_operations:
  assumes s: "s = main posix dflt rc argv stdin schedule"
    and opts: "opts = parsed_options posix argv"
  shows "(in_loop (pc s) \<longrightarrow>
            rc = 0 \<and>
            initialize_arg s = Some (spec_config dflt opts (snd (orientation_prompt stdin))) \<and>
            (\<exists>n. trace s =
                   getopt_calls opts @ prompt_events opts stdin @
                   [Signal_SIGINT, Rc_mpu_initialize_dmp 0] @ print_header @
                   [Rc_mpu_set_dmp_callback] @ replicate n (Rc_usleep 100000))) \<and>
         (Rc_mpu_set_dmp_callback \<in> set (trace s) \<longrightarrow>
            rc = 0 \<and> precedes (Rc_mpu_initialize_dmp 0) Rc_mpu_set_dmp_callback (trace s)) \<and>
         (Rc_usleep t \<in> set (trace s) \<longrightarrow>
            precedes Rc_mpu_set_dmp_callback (Rc_usleep t) (trace s))"
proof -
  obtain tr h where hs: "head_spec posix dflt argv stdin = (tr, h)"
    by (cases "head_spec posix dflt argv stdin")
  from head_spec_front[of posix dflt argv stdin] hs
  have front: "\<forall>e\<in>set tr. is_front e" by simp
  show ?thesis
  proof (cases h)
    case (Inl out)
    with hs have "head_spec posix dflt argv stdin = (tr, Inl out)" by simp
    from main_Inl[OF this, of rc schedule] front_not_tail[OF front]
    show ?thesis by (simp add: s)
  next
    case (Inr c)
    with hs have hs': "head_spec posix dflt argv stdin = (tr, Inr c)" by simp
    note inv = main_Inr_inv[OF hs', of rc schedule, folded s]
    from tail_invD(1)[OF inv] obtain n where tr: "trace s = tr @ tail_events rc n (pc s)"
      by blast
    have 1: "in_loop (pc s) \<longrightarrow>
            rc = 0 \<and>
            initialize_arg s = Some (spec_config dflt opts (snd (orientation_prompt stdin))) \<and>
            (\<exists>n. trace s =
                   getopt_calls opts @ prompt_events opts stdin @
                   [Signal_SIGINT, Rc_mpu_initialize_dmp 0] @ print_header @
                   [Rc_mpu_set_dmp_callback] @ replicate n (Rc_usleep 100000))"
    proof
      assume l: "in_loop (pc s)"
      with tail_invD(6)[OF inv] have rc: "rc = 0" by simp
      from l have nb: "\<not> before_init (pc s)" by (cases "pc s") simp_all
      with tail_invD(3)[OF inv] head_spec_Inr(2)[OF hs']
      have arg: "initialize_arg s = Some (spec_config dflt opts (snd (orientation_prompt stdin)))"
        by (simp add: opts)
      from l have "tail_events rc n (pc s) = idle_events rc n" by (cases "pc s") simp_all
      with tr head_spec_Inr(3)[OF hs'] rc
      have "trace s =
                   getopt_calls opts @ prompt_events opts stdin @
                   [Signal_SIGINT, Rc_mpu_initialize_dmp 0] @ print_header @
                   [Rc_mpu_set_dmp_callback] @ replicate n (Rc_usleep 100000)"
        by (simp add: idle_events_def opts)
      with rc arg show "rc = 0 \<and>
            initialize_arg s = Some (spec_config dflt opts (snd (orientation_prompt stdin))) \<and>
            (\<exists>n. trace s =
                   getopt_calls opts @ prompt_events opts stdin @
                   [Signal_SIGINT, Rc_mpu_initialize_dmp 0] @ print_header @
                   [Rc_mpu_set_dmp_callback] @ replicate n (Rc_usleep 100000))"
        by blast
    qed
    have 2: "Rc_mpu_set_dmp_callback \<in> set (trace s) \<longrightarrow>
            rc = 0 \<and> precedes (Rc_mpu_initialize_dmp 0) Rc_mpu_set_dmp_callback (trace s)"
    proof
      assume "Rc_mpu_set_dmp_callback \<in> set (trace s)"
      with tr front_not_tail(1)[OF front]
      have "Rc_mpu_set_dmp_callback \<in> set (tail_events rc n (pc s))" by simp
      then have p: "in_loop (pc s) \<or> after_loop (pc s)" by (rule tail_events_callback)
      with tail_invD(6)[OF inv] have rc: "rc = 0" by blast
      from tail_events_idle[OF p, of rc n] obtain rest where
        "tail_events rc n (pc s) = idle_events rc n @ rest" by blast
      with tr precedes_append[OF front_not_tail(1)[OF front] precedes_idle(1)[of rc n rest]] rc
      show "rc = 0 \<and> precedes (Rc_mpu_initialize_dmp 0) Rc_mpu_set_dmp_callback (trace s)"
        by simp
    qed
    have 3: "Rc_usleep t \<in> set (trace s) \<longrightarrow>
            precedes Rc_mpu_set_dmp_callback (Rc_usleep t) (trace s)"
    proof
      assume "Rc_usleep t \<in> set (trace s)"
      with tr front_not_tail(2)[OF front]
      have mem: "Rc_usleep t \<in> set (tail_events rc n (pc s))" by simp
      then have p: "in_loop (pc s) \<or> after_loop (pc s)" by (rule tail_events_usleep)
      from tail_events_idle[OF p, of rc n] obtain rest where
        e: "tail_events rc n (pc s) = idle_events rc n @ rest" by blast
      with mem have "Rc_usleep t \<in> set (idle_events rc n @ rest)" by simp
      from precedes_append[OF front_not_tail(2)[OF front] precedes_idle(2)[OF this]] tr e
      show "precedes Rc_mpu_set_dmp_callback (Rc_usleep t) (trace s)" by simp
    qed
    from 1 2 3 show ?thesis by blast
  qed
qed

theorem order_of_operations_witness:
  "in_loop (pc (main False example_config 0 [''print_data'', ''-r'', ''50''] []
      [Main_step, Main_step, Main_step, Main_step, Main_step, Main_step, Main_step])) \<and>
   trace (main False example_config 0 [''print_data'', ''-r'', ''50''] []
      [Main_step, Main_step, Main_step, Main_step, Main_step, Main_step, Main_step]) =
     [Getopt (Some (CHR ''r'', Some ''50'')), Getopt None, Signal_SIGINT,
      Rc_mpu_initialize_dmp 0] @ print_header @
     [Rc_mpu_set_dmp_callback, Rc_usleep 100000] \<and>
   precedes (Rc_mpu_initialize_dmp 0) Rc_mpu_set_dmp_callback
     (trace (main False example_config 0 [''print_data'', ''-r'', ''50''] []
      [Main_step, Main_step, Main_step, Main_step, Main_step, Main_step, Main_step])) \<and>
   precedes Rc_mpu_set_dmp_callback (Rc_usleep 100000)
     (trace (main False example_config 0 [''print_data'', ''-r'', ''50''] []
      [Main_step, Main_step, Main_step, Main_step, Main_step, Main_step, Main_step]))"
proof -
  have loop: "in_loop (pc (main False example_config 0 [''print_data'', ''-r'', ''50''] []
      [Main_step, Main_step, Main_step, Main_step, Main_step, Main_step, Main_step]))"
    by code_simp
  have tr: "trace (main False example_config 0 [''print_data'', ''-r'', ''50''] []
      [Main_step, Main_step, Main_step, Main_step, Main_step, Main_step, Main_step]) =
     [Getopt (Some (CHR ''r'', Some ''50'')), Getopt None, Signal_SIGINT,
      Rc_mpu_initialize_dmp 0] @ print_header @
     [Rc_mpu_set_dmp_callback, Rc_usleep 100000]"
    by code_simp
  have cb: "Rc_mpu_set_dmp_callback \<in> set (trace (main False example_config 0
      [''print_data'', ''-r'', ''50''] []
      [Main_step, Main_step, Main_step, Main_step, Main_step, Main_step, Main_step]))"
    by code_simp
  have sl: "Rc_usleep 100000 \<in> set (trace (main False example_config 0
      [''print_data'', ''-r'', ''50''] []
      [Main_step, Main_step, Main_step, Main_step, Main_step, Main_step, Main_step]))"
    by code_simp
  note t = order_of_operations [OF refl refl, where posix = False and dflt = example_config
      and rc = 0 and argv = "[''print_data'', ''-r'', ''50'']" and stdin = "[]"
      and schedule = "[Main_step, Main_step, Main_step, Main_step, Main_step, Main_step, Main_step]"
      and t = 100000]
  from t [THEN conjunct2, THEN conjunct1, rule_format, OF cb]
    t [THEN conjunct2, THEN conjunct2, rule_format, OF sl] loop tr
  show ?thesis by simp
qed

subsection \<open>The idle loop and the signal\<close>









lemma tail_events_returned_0:
  "Rc_mpu_power_off \<in> set (tail_events rc n (Halted (Returned 0)))"
  by simp





end
